theory Spec2Isabelle
  imports Main "HOL-Library.AList" "HOL-Library.Sublist"
begin


section \<open>Error classification table (errorsMappings, ErrorMappings)\<close>

text \<open>
  The Go source keeps a package-level slice \<open>errorsMappings\<close> of \<open>model.JobError\<close>
  values, each pairing an error kind with a compiled regular expression. The only regular
  expression operators used by the ten patterns are literal text and \<open>.*\<close>; Go's \<open>.\<close>
  does not match a newline.
\<close>

datatype JobErrorType =
  ResourceNotFoundError | PermissionError | ColumnCountError | UnknownError

datatype rx = Lit string | DotStar

record JobError =
  Type :: JobErrorType
  Format :: "rx list"

definition newline :: char where
  "newline = CHR 0x0A"

fun match_here :: "rx list \<Rightarrow> string \<Rightarrow> bool" where
  "match_here [] s = True"
| "match_here (Lit l # ps) s = (prefix l s \<and> match_here ps (drop (length l) s))"
| "match_here (DotStar # ps) [] = match_here ps []"
| "match_here (DotStar # ps) (c # cs) =
     (match_here ps (c # cs) \<or> (c \<noteq> newline \<and> match_here (DotStar # ps) cs))"

text \<open>\<open>regexp.MatchString\<close> is unanchored: the pattern may start at any offset.\<close>

fun MatchString :: "rx list \<Rightarrow> string \<Rightarrow> bool" where
  "MatchString ps [] = match_here ps []"
| "MatchString ps (c # cs) = (match_here ps (c # cs) \<or> MatchString ps cs)"

definition errorsMappings :: "JobError list" where
  "errorsMappings =
    [ \<lparr>Type = ResourceNotFoundError,
       Format = [Lit ''dial tcp: lookup '', DotStar, Lit '': no such host'']\<rparr>,
      \<lparr>Type = PermissionError,
       Format = [Lit ''dial tcp '', DotStar, Lit '' connect: connection refused'']\<rparr>,
      \<lparr>Type = ResourceNotFoundError,
       Format = [Lit ''pq: database '', DotStar, Lit '' does not exist'']\<rparr>,
      \<lparr>Type = ResourceNotFoundError,
       Format = [Lit ''pq: the database system is starting up'']\<rparr>,
      \<lparr>Type = ResourceNotFoundError,
       Format = [Lit ''pq: the database system is shutting down'']\<rparr>,
      \<lparr>Type = ResourceNotFoundError,
       Format = [Lit ''pq: relation '', DotStar, Lit '' does not exist'']\<rparr>,
      \<lparr>Type = ResourceNotFoundError,
       Format = [Lit ''pq: cannot set transaction read-write mode during recovery'']\<rparr>,
      \<lparr>Type = ColumnCountError,
       Format = [Lit ''pq: tables can have at most 1600 columns'']\<rparr>,
      \<lparr>Type = PermissionError,
       Format = [Lit ''pq: password authentication failed for user'']\<rparr>,
      \<lparr>Type = PermissionError,
       Format = [Lit ''pq: permission denied'']\<rparr> ]"

definition ErrorMappings :: "JobError list" where
  "ErrorMappings = errorsMappings"

text \<open>
  Modelled from the spec: the caller-side evaluation of the table is not part of this
  file of the repository. The spec says: a fixed, ordered table, first match wins, no match
  yields an unclassified kind.
\<close>

fun classify :: "JobError list \<Rightarrow> string \<Rightarrow> JobErrorType" where
  "classify [] s = UnknownError"
| "classify (e # es) s = (if MatchString (Format e) s then Type e else classify es s)"


section \<open>Row stream decoding (loadTable, the loop over one CSV record)\<close>

text \<open>
  A CSV field is a Go string, read here as its sequence of runes (code points), the way
  \<open>strings.TrimSpace\<close> reads it. \<open>isSpace\<close> is Go's \<open>unicode.IsSpace\<close>: six ASCII
  characters, U+0085 and U+00A0 in Latin-1, and the White_Space code points above Latin-1.
\<close>

type_synonym rune = nat
type_synonym field = "rune list"

definition isSpace :: "rune \<Rightarrow> bool" where
  "isSpace r =
     (if r \<le> 0xFF then r \<in> {0x09, 0x0A, 0x0B, 0x0C, 0x0D, 0x20, 0x85, 0xA0}
      else r = 0x1680 \<or> (0x2000 \<le> r \<and> r \<le> 0x200A) \<or> r = 0x2028 \<or> r = 0x2029
           \<or> r = 0x202F \<or> r = 0x205F \<or> r = 0x3000)"

definition TrimSpace :: "field \<Rightarrow> field" where
  "TrimSpace s = rev (dropWhile isSpace (rev (dropWhile isSpace s)))"

text \<open>
  Lines 454 to 461: \<open>recordInterface\<close> starts empty and receives one entry per field,
  \<open>nil\<close> (here \<open>None\<close>) when the trimmed field is empty and the field itself otherwise.
\<close>

definition recordInterface :: "field list \<Rightarrow> field option list" where
  "recordInterface row =
     foldl (\<lambda>acc v. if TrimSpace v = [] then acc @ [None] else acc @ [Some v]) [] row"

section \<open>Shared data: errors, tags, configuration\<close>

text \<open>
  Errors are values. \<open>DriverError\<close> is an error handed back by a collaborator (database
  driver, file system, gzip, downloader); the other constructors are the errors this file
  builds itself with \<open>fmt.Errorf\<close>, with the numbers and names they are formatted from.
\<close>

datatype error =
    DriverError string
  | CsvParseError nat
  | CsvFieldCount nat
  | ColumnCountMismatch nat string nat nat
  | BothNil
  | NotAbleToHandle
  | ExplainFailed error
  | RelationMissing string
  | RelationExists string

type_synonym tags = "(string \<times> string) list"

type_synonym TableSchema = "(string \<times> string) list"

record Postgres =
  Namespace :: string
  WorkspaceID :: string
  DestinationID :: string
  SkipComputingUserLatestTraits :: bool
  EnableSQLStatementExecutionPlan :: bool
  TxnRollbackTimeout :: nat
  SkipComputingUserLatestTraitsWorkspaceIDs :: "string list"
  EnableSQLStatementExecutionPlanWorkspaceIDs :: "string list"

text \<open>
  The package \<open>warehouseutils\<close> is not part of this file of the repository. Its constants
  and helpers that the code below uses are taken as parameters: the three table names, the
  staging-table prefix of the provider, the sorted column ordering of a schema, and the
  generator of staging-table names (one fixed name per target table within a call).
\<close>

record warehouseutils =
  UsersTable :: string
  IdentifiesTable :: string
  DiscardsTable :: string
  StagingTablePrefix :: string
  SortColumnKeysFromColumnMap :: "TableSchema \<Rightarrow> string list"
  StagingTableName :: "string \<Rightarrow> string"

section \<open>Rollback supervisor (runRollbackWithTimeout, handleRollbackTimeout)\<close>

text \<open>
  The rollback function \<open>f\<close> runs in its own goroutine; the supervisor waits for its
  completion or for the timer, whichever comes first. A run of \<open>f\<close> is described by the
  time it takes and the error it returns, or by the fact that it never returns. Time is
  counted in ticks of the clock. When both channels are ready at once Go's \<open>select\<close>
  picks one of them; \<open>pick_done\<close> is that choice.
\<close>

datatype rollback_run = Completes nat "error option" | Hangs

datatype log_entry =
    RollbackFailed error
  | RollbackTimedOut nat

record supervision =
  logged :: "log_entry list"
  metrics :: "(string \<times> tags) list"
  returned_at :: nat

definition handleRollbackTimeout :: "tags \<Rightarrow> (string \<times> tags) list" where
  "handleRollbackTimeout tgs = [(''pg_rollback_timeout'', tgs)]"

definition runRollbackWithTimeout ::
  "rollback_run \<Rightarrow> bool \<Rightarrow> (tags \<Rightarrow> (string \<times> tags) list) \<Rightarrow> nat \<Rightarrow> tags \<Rightarrow> supervision" where
  "runRollbackWithTimeout f pick_done onTimeout d tgs =
     (case f of
        Completes t res \<Rightarrow>
          if t < d \<or> (t = d \<and> pick_done)
          then \<lparr>logged = (case res of None \<Rightarrow> [] | Some e \<Rightarrow> [RollbackFailed e]),
                metrics = [], returned_at = t\<rparr>
          else \<lparr>logged = [RollbackTimedOut d], metrics = onTimeout tgs, returned_at = d\<rparr>
      | Hangs \<Rightarrow>
          \<lparr>logged = [RollbackTimedOut d], metrics = onTimeout tgs, returned_at = d\<rparr>)"

section \<open>Crash recovery sweep (CrashRecover, dropDanglingStagingTables)\<close>

text \<open>
  The tables of the working namespace are an association list from table name to content.
  The candidate query filters \<open>information_schema.tables\<close> with \<open>table_name like $2\<close>,
  where \<open>$2\<close> is the prefix followed by \<open>%\<close>. \<open>like_match\<close> is SQL's \<open>LIKE\<close> with
  the default escape character: \<open>%\<close> stands for any sequence, \<open>_\<close> for any single
  character, and a backslash makes the next pattern character literal.
\<close>

fun like_match :: "string \<Rightarrow> string \<Rightarrow> bool" where
  "like_match [] s = (s = [])"
| "like_match (p # ps) s =
     (if p = CHR ''%'' then
        (like_match ps s \<or> (case s of [] \<Rightarrow> False | _ # cs \<Rightarrow> like_match (p # ps) cs))
      else if p = CHR ''_'' then
        (case s of [] \<Rightarrow> False | _ # cs \<Rightarrow> like_match ps cs)
      else if p = CHR 0x5C then
        (case ps of
           [] \<Rightarrow> False
         | q # qs \<Rightarrow> (case s of [] \<Rightarrow> False | c # cs \<Rightarrow> c = q \<and> like_match qs cs))
      else
        (case s of [] \<Rightarrow> False | c # cs \<Rightarrow> c = p \<and> like_match ps cs))"

type_synonym 'tbl namespace = "(string \<times> 'tbl) list"

text \<open>
  What the environment decides during a sweep: whether the candidate query fails, whether
  scanning a result row fails, whether the iteration reports an error at its end, and
  which \<open>DROP TABLE\<close> statements fail.
\<close>

record sweep_env =
  queryErr :: "error option"
  scanErr :: "string \<Rightarrow> error option"
  rowsErr :: "error option"
  dropTableErr :: "string \<Rightarrow> error option"

datatype sweep_outcome = Panicked error | Returned bool

record 'tbl sweep_result =
  outcome :: sweep_outcome
  attempted :: "string list"
  tables_after :: "'tbl namespace"

fun scan_rows :: "sweep_env \<Rightarrow> string list \<Rightarrow> string list \<Rightarrow> error + string list" where
  "scan_rows env acc [] = Inr acc"
| "scan_rows env acc (n # ns) =
     (case scanErr env n of
        Some e \<Rightarrow> Inl e
      | None \<Rightarrow> scan_rows env (acc @ [n]) ns)"

fun drop_each ::
  "sweep_env \<Rightarrow> string list \<Rightarrow> bool \<Rightarrow> 'tbl namespace \<Rightarrow> bool \<times> 'tbl namespace" where
  "drop_each env [] delSuccess db = (delSuccess, db)"
| "drop_each env (n # ns) delSuccess db =
     (case dropTableErr env n of
        Some e \<Rightarrow> drop_each env ns False db
      | None \<Rightarrow> drop_each env ns delSuccess (AList.delete n db))"

text \<open>The rows of the candidate query when it succeeds.\<close>

definition candidates :: "warehouseutils \<Rightarrow> 'tbl namespace \<Rightarrow> string list" where
  "candidates wu db = filter (like_match (StagingTablePrefix wu @ ''%'')) (map fst db)"

definition dropDanglingStagingTables ::
  "warehouseutils \<Rightarrow> sweep_env \<Rightarrow> 'tbl namespace \<Rightarrow> 'tbl sweep_result" where
  "dropDanglingStagingTables wu env db =
     (case queryErr env of
        Some e \<Rightarrow> \<lparr>outcome = Returned False, attempted = [], tables_after = db\<rparr>
      | None \<Rightarrow>
         (case scan_rows env [] (candidates wu db) of
            Inl e \<Rightarrow> \<lparr>outcome = Panicked e, attempted = [], tables_after = db\<rparr>
          | Inr stagingTableNames \<Rightarrow>
             (case rowsErr env of
                Some e \<Rightarrow> \<lparr>outcome = Panicked e, attempted = [], tables_after = db\<rparr>
              | None \<Rightarrow>
                 (case drop_each env stagingTableNames True db of
                    (delSuccess, db') \<Rightarrow>
                      \<lparr>outcome = Returned delSuccess, attempted = stagingTableNames,
                       tables_after = db'\<rparr>))))"

definition CrashRecover :: "warehouseutils \<Rightarrow> sweep_env \<Rightarrow> 'tbl namespace \<Rightarrow> 'tbl sweep_result" where
  "CrashRecover wu env db = dropDanglingStagingTables wu env db"

section \<open>Tables, rows and the two dedup statements\<close>

text \<open>
  A row is an association list from column name to cell; a cell is \<open>None\<close> for SQL's
  \<open>NULL\<close> and \<open>Some v\<close> for a value \<open>v\<close> of the database's typed values, which are
  linearly ordered (the order \<open>ORDER BY\<close> uses). A column that a row does not list
  reads as \<open>NULL\<close>. A table is the list of its rows, and the tables of the working
  namespace are an association list from table name to table.
\<close>

type_synonym 'v row = "(string \<times> 'v option) list"
type_synonym 'v table = "'v row list"
type_synonym 'v db = "(string \<times> 'v table) list"

definition cell :: "'v row \<Rightarrow> string \<Rightarrow> 'v option" where
  "cell r c = (case map_of r c of None \<Rightarrow> None | Some x \<Rightarrow> x)"

text \<open>
  SQL's \<open>=\<close> in a \<open>WHERE\<close> clause: the row qualifies only when the comparison is true,
  and a comparison with \<open>NULL\<close> is never true.
\<close>

definition sql_eq :: "'v option \<Rightarrow> 'v option \<Rightarrow> bool" where
  "sql_eq a b =
     (case a of None \<Rightarrow> False | Some x \<Rightarrow> (case b of None \<Rightarrow> False | Some y \<Rightarrow> x = y))"

definition primaryKeyMap :: "warehouseutils \<Rightarrow> (string \<times> string) list" where
  "primaryKeyMap wu =
     [(UsersTable wu, ''id''), (IdentifiesTable wu, ''id''), (DiscardsTable wu, ''row_id'')]"

text \<open>
  The partition key is the text put after \<open>PARTITION BY\<close>: a comma-separated list of
  column names, kept here as the list of those names.
\<close>

definition partitionKeyMap :: "warehouseutils \<Rightarrow> (string \<times> string list) list" where
  "partitionKeyMap wu =
     [(UsersTable wu, [''id'']), (IdentifiesTable wu, [''id'']),
      (DiscardsTable wu, [''row_id'', ''column_name'', ''table_name''])]"

definition primaryKey :: "warehouseutils \<Rightarrow> string \<Rightarrow> string" where
  "primaryKey wu tableName =
     (case map_of (primaryKeyMap wu) tableName of Some column \<Rightarrow> column | None \<Rightarrow> ''id'')"

definition partitionKey :: "warehouseutils \<Rightarrow> string \<Rightarrow> string list" where
  "partitionKey wu tableName =
     (case map_of (partitionKeyMap wu) tableName of Some column \<Rightarrow> column | None \<Rightarrow> [''id''])"

text \<open>
  \<open>additionalJoinClause\<close> is empty except for the discards table, where it adds the
  equalities on \<open>table_name\<close> and \<open>column_name\<close>; it is kept as the list of the columns
  it compares.
\<close>

definition additionalJoinClause :: "warehouseutils \<Rightarrow> string \<Rightarrow> string list" where
  "additionalJoinClause wu tableName =
     (if tableName = DiscardsTable wu then [''table_name'', ''column_name''] else [])"

text \<open>
  \<open>DELETE FROM t USING staging AS _source WHERE (_source.pk = t.pk <additional>)\<close>:
  a row of \<open>t\<close> goes when some staging row satisfies the condition with it.
\<close>

definition delete_condition :: "string \<Rightarrow> string list \<Rightarrow> 'v row \<Rightarrow> 'v row \<Rightarrow> bool" where
  "delete_condition pk additional source d =
     (sql_eq (cell source pk) (cell d pk)
      \<and> list_all (\<lambda>c. sql_eq (cell source c) (cell d c)) additional)"

definition dedup_delete :: "string \<Rightarrow> string list \<Rightarrow> 'v table \<Rightarrow> 'v table \<Rightarrow> 'v table" where
  "dedup_delete pk additional dest staging =
     filter (\<lambda>d. \<not> list_ex (\<lambda>source. delete_condition pk additional source d) staging) dest"

text \<open>
  \<open>ORDER BY received_at DESC\<close>: \<open>desc_before a b\<close> says that a row with recency \<open>a\<close>
  sorts strictly before one with recency \<open>b\<close>. PostgreSQL puts \<open>NULL\<close> first in a
  descending order. \<open>PARTITION BY\<close> puts rows together whose key cells are not distinct
  (two \<open>NULL\<close>s are not distinct).
\<close>

definition desc_before :: "'v::linorder option \<Rightarrow> 'v option \<Rightarrow> bool" where
  "desc_before a b =
     (case a of
        None \<Rightarrow> b \<noteq> None
      | Some x \<Rightarrow> (case b of None \<Rightarrow> False | Some y \<Rightarrow> y < x))"

definition same_partition :: "string list \<Rightarrow> 'v row \<Rightarrow> 'v row \<Rightarrow> bool" where
  "same_partition keys r s = list_all (\<lambda>k. cell r k = cell s k) keys"

definition received_at :: "'v row \<Rightarrow> 'v option" where
  "received_at r = cell r ''received_at''"

text \<open>
  \<open>row_number() OVER (PARTITION BY keys ORDER BY received_at DESC)\<close> of the row at
  position \<open>i\<close>: one more than the number of rows of its partition that are ordered before
  it. Rows of equal recency are ordered by the database as it likes; here the one that
  comes first in the table is ordered first.
\<close>

definition row_number :: "string list \<Rightarrow> ('v::linorder) table \<Rightarrow> nat \<Rightarrow> nat" where
  "row_number keys tbl i =
     Suc (length (filter
       (\<lambda>j. same_partition keys (tbl ! j) (tbl ! i)
            \<and> (desc_before (received_at (tbl ! j)) (received_at (tbl ! i))
                \<or> (j < i \<and> \<not> desc_before (received_at (tbl ! i)) (received_at (tbl ! j)))))
       [0..<length tbl]))"

definition project :: "string list \<Rightarrow> 'v row \<Rightarrow> 'v row" where
  "project cols r = map (\<lambda>c. (c, cell r c)) cols"

text \<open>
  \<open>INSERT INTO t (cols) SELECT cols FROM (SELECT *, row_number() ... FROM staging)
  WHERE _rudder_staging_row_number = 1\<close>.
\<close>

definition ranked_first :: "string list \<Rightarrow> ('v::linorder) table \<Rightarrow> 'v table" where
  "ranked_first keys staging =
     map (\<lambda>i. staging ! i) (filter (\<lambda>i. row_number keys staging i = 1) [0..<length staging])"

definition dedup_insert ::
  "string list \<Rightarrow> string list \<Rightarrow> ('v::linorder) table \<Rightarrow> 'v table \<Rightarrow> 'v table" where
  "dedup_insert cols keys dest staging = dest @ map (project cols) (ranked_first keys staging)"

section \<open>Staging table loader and dedup merge (loadTable)\<close>

definition createStagingTable :: string where "createStagingTable = ''staging_table_creation''"
definition copyInSchemaStagingTable :: string where "copyInSchemaStagingTable = ''staging_table_copy_in_schema''"
definition openLoadFiles :: string where "openLoadFiles = ''load_files_opening''"
definition readGzipLoadFiles :: string where "readGzipLoadFiles = ''load_files_gzip_reading''"
definition readCsvLoadFiles :: string where "readCsvLoadFiles = ''load_files_csv_reading''"
definition csvColumnCountMismatch :: string where "csvColumnCountMismatch = ''csv_column_count_mismatch''"
definition loadStagingTable :: string where "loadStagingTable = ''staging_table_loading''"
definition stagingTableloadStage :: string where "stagingTableloadStage = ''staging_table_load_stage''"
definition deleteDedup :: string where "deleteDedup = ''dedup_deletion''"
definition insertDedup :: string where "insertDedup = ''dedup_insertion''"
definition dedupStage :: string where "dedupStage = ''dedup_stage''"

text \<open>
  A load file as the loader meets it: opening it or starting to decompress it may fail,
  and its content is a sequence of CSV records, each starting on some line of the file, or
  malformed input at some line.
\<close>

datatype csv_item = CsvRecord nat "field list" | CsvMalformed nat

record load_file =
  openErr :: "error option"
  gzipErr :: "error option"
  csv :: "csv_item list"

text \<open>
  Go's \<open>csv.Reader.Read\<close> on the next item, for a reader made by \<open>csv.NewReader\<close> with
  no field changed. \<open>FieldsPerRecord\<close> starts at 0: the first record sets it to its own
  number of fields, and every later record with another number of fields is returned with
  the error \<open>ErrFieldCount\<close>, which names the line of the record.
\<close>

fun Read :: "nat \<Rightarrow> csv_item \<Rightarrow> error + (field list \<times> nat)" where
  "Read FieldsPerRecord (CsvMalformed ln) = Inl (CsvParseError ln)"
| "Read FieldsPerRecord (CsvRecord ln r) =
     (if FieldsPerRecord > 0 then
        (if length r \<noteq> FieldsPerRecord then Inl (CsvFieldCount ln) else Inr (r, FieldsPerRecord))
      else Inr (r, length r))"

text \<open>
  What the environment decides during one call of \<open>loadTable\<close>: the outcome of each call
  to a collaborator. The database turns the text of a copied field of a column into a
  typed value with \<open>decode\<close>, or rejects the copied row.
\<close>

record 'v load_env =
  setSearchPathErr :: "error option"
  DownloadLoadFiles :: "error + load_file list"
  beginTxErr :: "error option"
  createErr :: "error option"
  prepareErr :: "error option"
  copyInErr :: "field option list \<Rightarrow> error option"
  decode :: "string \<Rightarrow> field \<Rightarrow> 'v"
  copyFlushErr :: "error option"
  explainDeleteErr :: "error option"
  deleteErr :: "error option"
  explainInsertErr :: "error option"
  insertErr :: "error option"
  commitErr :: "error option"
  rollbackRun :: rollback_run
  rollbackPick :: bool
  dropErr :: "string \<Rightarrow> error option"

record QueryParams =
  q_txn :: bool
  q_db :: bool
  enableWithQueryPlan :: bool

definition validate :: "QueryParams \<Rightarrow> error option" where
  "validate q = (if \<not> q_txn q \<and> \<not> q_db q then Some BothNil else None)"

text \<open>
  \<open>handleExecContext\<close>: with the plan enabled the statement is first run under
  \<open>EXPLAIN\<close>, whose failure is returned; then the statement itself is executed. The two
  arguments after the parameters are what the database answers to each.
\<close>

definition handleExecContext :: "QueryParams \<Rightarrow> error option \<Rightarrow> error option \<Rightarrow> error option" where
  "handleExecContext e explainRes execRes =
     (case validate e of
        Some err \<Rightarrow> Some NotAbleToHandle
      | None \<Rightarrow>
         (if enableWithQueryPlan e then
            (case explainRes of
               Some err \<Rightarrow> Some (ExplainFailed err)
             | None \<Rightarrow> (if q_txn e then execRes else if q_db e then execRes else None))
          else (if q_txn e then execRes else if q_db e then execRes else None)))"

definition planEnabled :: "Postgres \<Rightarrow> bool" where
  "planEnabled pg =
     (EnableSQLStatementExecutionPlan pg
      \<or> WorkspaceID pg \<in> set (EnableSQLStatementExecutionPlanWorkspaceIDs pg))"

text \<open>
  \<open>DROP TABLE IF EXISTS\<close> on the connection pool, outside any transaction; an error is
  logged and nothing else happens.
\<close>

definition dropStagingTable :: "(string \<Rightarrow> error option) \<Rightarrow> string \<Rightarrow> 'v db \<Rightarrow> 'v db" where
  "dropStagingTable dropE stagingTableName db =
     (case dropE stagingTableName of
        Some err \<Rightarrow> db
      | None \<Rightarrow> AList.delete stagingTableName db)"

text \<open>
  Reading a table fails when the namespace has no such table, and creating one fails when
  the name is taken. \<open>CREATE TABLE staging (LIKE t)\<close> needs \<open>t\<close> to exist and gives
  an empty table. The first argument of the two creating functions is the failure the
  environment decides for the statement.
\<close>

definition table_of :: "'v db \<Rightarrow> string \<Rightarrow> error + 'v table" where
  "table_of db tableName =
     (case map_of db tableName of
        None \<Rightarrow> Inl (RelationMissing tableName)
      | Some t \<Rightarrow> Inr t)"

definition create_table :: "error option \<Rightarrow> 'v db \<Rightarrow> string \<Rightarrow> 'v table \<Rightarrow> error + 'v db" where
  "create_table failure db newName content =
     (case failure of
        Some err \<Rightarrow> Inl err
      | None \<Rightarrow>
         (if map_of db newName \<noteq> None then Inl (RelationExists newName)
          else Inr (db @ [(newName, content)])))"

definition create_like :: "error option \<Rightarrow> 'v db \<Rightarrow> string \<Rightarrow> string \<Rightarrow> error + 'v db" where
  "create_like failure db stagingTableName tableName =
     (case failure of
        Some err \<Rightarrow> Inl err
      | None \<Rightarrow>
         (case table_of db tableName of
            Inl err \<Rightarrow> Inl err
          | Inr t \<Rightarrow> create_table None db stagingTableName []))"

text \<open>
  One row through the bulk-copy statement: the values are paired with the columns of the
  statement in order, \<open>nil\<close> becoming \<open>NULL\<close> and a text the typed value of its column.
\<close>

fun typed_row :: "(string \<Rightarrow> field \<Rightarrow> 'v) \<Rightarrow> string list \<Rightarrow> field option list \<Rightarrow> 'v row" where
  "typed_row dec (c # cs) (v # vs) = (c, map_option (dec c) v) # typed_row dec cs vs"
| "typed_row dec [] vs = []"
| "typed_row dec cs [] = []"

definition copy_row :: "'v load_env \<Rightarrow> string list \<Rightarrow> field option list \<Rightarrow> error + 'v row" where
  "copy_row env cols vals =
     (case copyInErr env vals of
        Some err \<Rightarrow> Inl err
      | None \<Rightarrow> Inr (typed_row (decode env) cols vals))"

text \<open>
  Lines 434 to 470, the loop over the records of one file. The arguments after the column
  ordering are the reader's \<open>FieldsPerRecord\<close>, \<open>csvRowsProcessedCount\<close>, what is left of
  the file and the rows copied to the staging table so far. The result is the stage and
  the error of the first failure, or the rows of the staging table.
\<close>

fun copy_records ::
  "'v load_env \<Rightarrow> string \<Rightarrow> string list \<Rightarrow> nat \<Rightarrow> nat \<Rightarrow> csv_item list \<Rightarrow> 'v table
     \<Rightarrow> (string \<times> error) + 'v table" where
  "copy_records env tableName sortedColumnKeys fpr csvRowsProcessedCount [] staged = Inr staged"
| "copy_records env tableName sortedColumnKeys fpr csvRowsProcessedCount (item # rest) staged =
     (case Read fpr item of
        Inl err \<Rightarrow> Inl (readCsvLoadFiles, err)
      | Inr (row, fpr') \<Rightarrow>
         (if length sortedColumnKeys \<noteq> length row then
            Inl (csvColumnCountMismatch,
                 ColumnCountMismatch (length row) tableName (length sortedColumnKeys)
                   csvRowsProcessedCount)
          else
            (case copy_row env sortedColumnKeys (recordInterface row) of
               Inl err \<Rightarrow> Inl (loadStagingTable, err)
             | Inr r \<Rightarrow>
                 copy_records env tableName sortedColumnKeys fpr'
                   (csvRowsProcessedCount + 1) rest (staged @ [r]))))"

text \<open>Lines 413 to 473, the loop over the files: a new reader and a new count per file.\<close>

fun copy_files ::
  "'v load_env \<Rightarrow> string \<Rightarrow> string list \<Rightarrow> load_file list \<Rightarrow> 'v table
     \<Rightarrow> (string \<times> error) + 'v table" where
  "copy_files env tableName sortedColumnKeys [] staged = Inr staged"
| "copy_files env tableName sortedColumnKeys (f # fs) staged =
     (case openErr f of
        Some err \<Rightarrow> Inl (openLoadFiles, err)
      | None \<Rightarrow>
         (case gzipErr f of
            Some err \<Rightarrow> Inl (readGzipLoadFiles, err)
          | None \<Rightarrow>
             (case copy_records env tableName sortedColumnKeys 0 0 (csv f) staged of
                Inl failure \<Rightarrow> Inl failure
              | Inr staged' \<Rightarrow> copy_files env tableName sortedColumnKeys fs staged')))"

record 'v load_result =
  staging_name :: string
  load_err :: "error option"
  db_after :: "'v db"
  rollbacks :: "(tags \<times> supervision) list"

definition load_tags :: "Postgres \<Rightarrow> string \<Rightarrow> tags" where
  "load_tags pg tableName =
     [(''workspaceId'', WorkspaceID pg), (''namepsace'', Namespace pg),
      (''destinationID'', DestinationID pg), (''tableName'', tableName)]"

text \<open>
  The failure path shared by every stage: the stage is written into the tags and the
  rollback supervisor runs \<open>txn.Rollback\<close>. Nothing of the transaction reaches the
  committed tables, whatever the rollback does.
\<close>

definition supervise :: "Postgres \<Rightarrow> rollback_run \<Rightarrow> bool \<Rightarrow> tags \<Rightarrow> string \<Rightarrow> tags \<times> supervision" where
  "supervise pg run pick tgs stage =
     (AList.update ''stage'' stage tgs,
      runRollbackWithTimeout run pick handleRollbackTimeout (TxnRollbackTimeout pg)
        (AList.update ''stage'' stage tgs))"

text \<open>
  Lines 406 to 538: from the bulk-copy statement to the commit, inside the transaction
  whose view of the namespace is \<open>txn\<close>; \<open>db\<close> is the committed namespace. The result is
  the error, the committed namespace and the rollbacks run. The delete and the insert
  reach the committed namespace with the commit; a commit that returns an error has
  committed nothing.
\<close>

definition load_and_merge ::
  "warehouseutils \<Rightarrow> Postgres \<Rightarrow> ('v::linorder) load_env \<Rightarrow> 'v db \<Rightarrow> 'v db \<Rightarrow> string \<Rightarrow> string
     \<Rightarrow> string list \<Rightarrow> load_file list \<Rightarrow> error option \<times> 'v db \<times> (tags \<times> supervision) list" where
  "load_and_merge wu pg env db txn tableName stagingTableName sortedColumnKeys fileNames =
     (let tgs = load_tags pg tableName;
          fail = (\<lambda>stage err. (Some err, db, [supervise pg (rollbackRun env) (rollbackPick env) tgs stage]));
          params = \<lparr>q_txn = True, q_db = False, enableWithQueryPlan = planEnabled pg\<rparr>
      in
      case prepareErr env of
        Some err \<Rightarrow> fail copyInSchemaStagingTable err
      | None \<Rightarrow>
         (case copy_files env tableName sortedColumnKeys fileNames [] of
            Inl (stage, err) \<Rightarrow> fail stage err
          | Inr staged \<Rightarrow>
             (case copyFlushErr env of
                Some err \<Rightarrow> fail stagingTableloadStage err
              | None \<Rightarrow>
                 (case handleExecContext params (explainDeleteErr env) (deleteErr env) of
                    Some err \<Rightarrow> fail deleteDedup err
                  | None \<Rightarrow>
                     (case handleExecContext params (explainInsertErr env) (insertErr env) of
                        Some err \<Rightarrow> fail insertDedup err
                      | None \<Rightarrow>
                         (case commitErr env of
                            Some err \<Rightarrow> fail dedupStage err
                          | None \<Rightarrow>
                             (None,
                              AList.update tableName
                                (dedup_insert sortedColumnKeys (partitionKey wu tableName)
                                   (dedup_delete (primaryKey wu tableName)
                                      (additionalJoinClause wu tableName)
                                      (case table_of txn tableName of Inl e \<Rightarrow> [] | Inr t \<Rightarrow> t)
                                      staged)
                                   staged)
                                (AList.update stagingTableName staged txn),
                              [])))))))"

definition loadTable ::
  "warehouseutils \<Rightarrow> Postgres \<Rightarrow> ('v::linorder) load_env \<Rightarrow> 'v db \<Rightarrow> string \<Rightarrow> TableSchema \<Rightarrow> bool
     \<Rightarrow> 'v load_result" where
  "loadTable wu pg env db tableName tableSchemaInUpload skipTempTableDelete =
     (case setSearchPathErr env of
        Some err \<Rightarrow> \<lparr>staging_name = [], load_err = Some err, db_after = db, rollbacks = []\<rparr>
      | None \<Rightarrow>
         (case DownloadLoadFiles env of
            Inl err \<Rightarrow> \<lparr>staging_name = [], load_err = Some err, db_after = db, rollbacks = []\<rparr>
          | Inr fileNames \<Rightarrow>
             (case beginTxErr env of
                Some err \<Rightarrow>
                  \<lparr>staging_name = [], load_err = Some err, db_after = db, rollbacks = []\<rparr>
              | None \<Rightarrow>
                 (let stagingTableName = StagingTableName wu tableName in
                  case create_like (createErr env) db stagingTableName tableName of
                    Inl err \<Rightarrow>
                      \<lparr>staging_name = stagingTableName, load_err = Some err, db_after = db,
                       rollbacks = [supervise pg (rollbackRun env) (rollbackPick env)
                                      (load_tags pg tableName) createStagingTable]\<rparr>
                  | Inr txn \<Rightarrow>
                     (let merged = load_and_merge wu pg env db txn tableName stagingTableName
                                     (SortColumnKeysFromColumnMap wu tableSchemaInUpload)
                                     fileNames
                      in
                      \<lparr>staging_name = stagingTableName, load_err = fst merged,
                       db_after = (if \<not> skipTempTableDelete
                                   then dropStagingTable (dropErr env) stagingTableName
                                          (fst (snd merged))
                                   else fst (snd merged)),
                       rollbacks = snd (snd merged)\<rparr>)))))"

section \<open>Identity resolution merge (loadUserTables)\<close>

record Uploader =
  GetTableSchemaInUpload :: "string \<Rightarrow> TableSchema"
  GetTableSchemaInWarehouse :: "string \<Rightarrow> TableSchema"

text \<open>
  What the environment decides during one call of \<open>loadUserTables\<close>: the outcomes of
  the two calls of \<open>loadTable\<close> it may make, and of its own statements.
\<close>

record 'v users_env =
  u_setSearchPathErr :: "error option"
  identifiesEnv :: "'v load_env"
  usersEnv :: "'v load_env"
  createUnionErr :: "error option"
  createUsersStagingErr :: "error option"
  u_beginTxErr :: "error option"
  u_explainDeleteErr :: "error option"
  u_deleteErr :: "error option"
  u_explainInsertErr :: "error option"
  u_insertErr :: "error option"
  u_commitErr :: "error option"
  u_rollbackRun :: rollback_run
  u_rollbackPick :: bool
  u_dropErr :: "string \<Rightarrow> error option"

text \<open>
  Lines 606 to 622: the attribute columns are the columns of the users table in the
  warehouse schema other than \<open>id\<close>, in the order in which the map is iterated.
\<close>

definition userColNames :: "TableSchema \<Rightarrow> string list" where
  "userColNames userColMap = filter (\<lambda>colName. colName \<noteq> ''id'') (map fst userColMap)"

text \<open>
  Lines 624 to 631, the union table: the rows of the users table whose \<open>id\<close> is a
  non-null \<open>user_id\<close> of the identifies staging table, and the rows of the identifies
  staging table with a non-null \<open>user_id\<close>, each read as \<open>id\<close> and the attribute
  columns. \<open>UNION\<close> keeps one copy of equal rows.
\<close>

definition union_rows :: "string list \<Rightarrow> 'v table \<Rightarrow> 'v table \<Rightarrow> 'v table" where
  "union_rows cols users identifies =
     remdups
       (map (\<lambda>u. (''id'', cell u ''id'') # project cols u)
            (filter (\<lambda>u. list_ex (\<lambda>i. cell i ''user_id'' \<noteq> None
                                       \<and> sql_eq (cell u ''id'') (cell i ''user_id'')) identifies)
                    users)
        @ map (\<lambda>i. (''id'', cell i ''user_id'') # project cols i)
              (filter (\<lambda>i. cell i ''user_id'' \<noteq> None) identifies))"

text \<open>
  \<open>ORDER BY received_at DESC LIMIT 1\<close>: a row that no other row is ordered before.
  Among rows of equal recency the database takes the one it likes; here the first of them
  in the table is taken.
\<close>

fun top_desc :: "('v::linorder) table \<Rightarrow> 'v row option" where
  "top_desc [] = None"
| "top_desc (r # rs) =
     (case top_desc rs of
        None \<Rightarrow> Some r
      | Some m \<Rightarrow> (if desc_before (received_at m) (received_at r) then Some m else Some r))"

text \<open>
  Lines 613 to 620, the subquery of one column \<open>c\<close> for the row \<open>x\<close> of the union table:
  among the rows with the \<open>id\<close> of \<open>x\<close> and a non-null \<open>c\<close>, the value of \<open>c\<close> in the
  first by descending \<open>received_at\<close>; \<open>NULL\<close> when there is none.
\<close>

definition first_val :: "('v::linorder) table \<Rightarrow> string \<Rightarrow> 'v row \<Rightarrow> 'v option" where
  "first_val staging_table c x =
     (case top_desc (filter (\<lambda>s. sql_eq (cell x ''id'') (cell s ''id'') \<and> cell s c \<noteq> None)
                            staging_table) of
        None \<Rightarrow> None
      | Some s \<Rightarrow> cell s c)"

text \<open>Lines 640 to 651, the users staging table: \<open>SELECT DISTINCT\<close> over the union table.\<close>

definition users_staging :: "string list \<Rightarrow> ('v::linorder) table \<Rightarrow> 'v table" where
  "users_staging cols un =
     remdups (map (\<lambda>x. (''id'', cell x ''id'') # map (\<lambda>c. (c, first_val un c x)) cols) un)"

definition users_tags :: "Postgres \<Rightarrow> warehouseutils \<Rightarrow> tags" where
  "users_tags pg wu =
     [(''workspaceId'', WorkspaceID pg), (''destId'', DestinationID pg),
      (''tableName'', UsersTable wu)]"

text \<open>
  Lines 606 to 713: the two \<open>CREATE TABLE ... AS\<close> statements run on the connection pool
  and are committed at once; the delete and the insert run in one transaction. The result
  is the error, the committed namespace and the rollbacks run.
\<close>

definition merge_users ::
  "warehouseutils \<Rightarrow> Postgres \<Rightarrow> Uploader \<Rightarrow> ('v::linorder) users_env \<Rightarrow> 'v db \<Rightarrow> string
     \<Rightarrow> string \<Rightarrow> string \<Rightarrow> error option \<times> 'v db \<times> (tags \<times> supervision) list" where
  "merge_users wu pg up env db identifyStagingTable unionStagingTableName stagingTableName =
     (let cols = userColNames (GetTableSchemaInWarehouse up (UsersTable wu));
          params = \<lparr>q_txn = True, q_db = False, enableWithQueryPlan = planEnabled pg\<rparr>
      in
      case table_of db (UsersTable wu) of
        Inl err \<Rightarrow> (Some err, db, [])
      | Inr users \<Rightarrow>
      (case table_of db identifyStagingTable of
        Inl err \<Rightarrow> (Some err, db, [])
      | Inr identifies \<Rightarrow>
      (case create_table (createUnionErr env) db unionStagingTableName
              (union_rows cols users identifies) of
        Inl err \<Rightarrow> (Some err, db, [])
      | Inr db1 \<Rightarrow>
      (case create_table (createUsersStagingErr env) db1 stagingTableName
              (users_staging cols (union_rows cols users identifies)) of
        Inl err \<Rightarrow> (Some err, db1, [])
      | Inr db2 \<Rightarrow>
      (case u_beginTxErr env of
        Some err \<Rightarrow> (Some err, db2, [])
      | None \<Rightarrow>
      (case handleExecContext params (u_explainDeleteErr env) (u_deleteErr env) of
        Some err \<Rightarrow>
          (Some err, db2,
           [supervise pg (u_rollbackRun env) (u_rollbackPick env) (users_tags pg wu) deleteDedup])
      | None \<Rightarrow>
      (case handleExecContext params (u_explainInsertErr env) (u_insertErr env) of
        Some err \<Rightarrow>
          (Some err, db2,
           [supervise pg (u_rollbackRun env) (u_rollbackPick env) (users_tags pg wu) insertDedup])
      | None \<Rightarrow>
      (case u_commitErr env of
        Some err \<Rightarrow>
          (Some err, db2,
           [supervise pg (u_rollbackRun env) (u_rollbackPick env) (users_tags pg wu) dedupStage])
      | None \<Rightarrow>
          (None,
           AList.update (UsersTable wu)
             (dedup_delete ''id'' [] users (users_staging cols (union_rows cols users identifies))
              @ map (project (''id'' # cols))
                    (users_staging cols (union_rows cols users identifies)))
             db2,
           [])))))))))"

record 'v users_result =
  errorMap :: "string \<rightharpoonup> error option"
  u_db_after :: "'v db"
  u_rollbacks :: "(tags \<times> supervision) list"

definition loadUserTables ::
  "warehouseutils \<Rightarrow> Postgres \<Rightarrow> Uploader \<Rightarrow> ('v::linorder) users_env \<Rightarrow> 'v db \<Rightarrow> 'v users_result" where
  "loadUserTables wu pg up env db =
     (case u_setSearchPathErr env of
        Some err \<Rightarrow>
          \<lparr>errorMap = [IdentifiesTable wu \<mapsto> None](IdentifiesTable wu \<mapsto> Some err),
           u_db_after = db, u_rollbacks = []\<rparr>
      | None \<Rightarrow>
         (let r = loadTable wu pg (identifiesEnv env) db (IdentifiesTable wu)
                    (GetTableSchemaInUpload up (IdentifiesTable wu)) True;
              identifyStagingTable = staging_name r
          in
          case load_err r of
            Some err \<Rightarrow>
              \<lparr>errorMap = [IdentifiesTable wu \<mapsto> None](IdentifiesTable wu \<mapsto> Some err),
               u_db_after = dropStagingTable (u_dropErr env) identifyStagingTable (db_after r),
               u_rollbacks = rollbacks r\<rparr>
          | None \<Rightarrow>
             (if length (GetTableSchemaInUpload up (UsersTable wu)) = 0 then
                \<lparr>errorMap = [IdentifiesTable wu \<mapsto> None],
                 u_db_after = dropStagingTable (u_dropErr env) identifyStagingTable (db_after r),
                 u_rollbacks = rollbacks r\<rparr>
              else if SkipComputingUserLatestTraits pg
                      \<or> WorkspaceID pg \<in> set (SkipComputingUserLatestTraitsWorkspaceIDs pg) then
                (let r2 = loadTable wu pg (usersEnv env) (db_after r) (UsersTable wu)
                            (GetTableSchemaInUpload up (UsersTable wu)) False
                 in
                 \<lparr>errorMap =
                    (case load_err r2 of
                       Some err \<Rightarrow>
                         [IdentifiesTable wu \<mapsto> None, UsersTable wu \<mapsto> None]
                           (UsersTable wu \<mapsto> Some err)
                     | None \<Rightarrow> [IdentifiesTable wu \<mapsto> None, UsersTable wu \<mapsto> None]),
                  u_db_after =
                    dropStagingTable (u_dropErr env) identifyStagingTable (db_after r2),
                  u_rollbacks = rollbacks r @ rollbacks r2\<rparr>)
              else
                (let unionStagingTableName = StagingTableName wu ''users_identifies_union'';
                     stagingTableName = StagingTableName wu (UsersTable wu);
                     merged = merge_users wu pg up env (db_after r) identifyStagingTable
                                unionStagingTableName stagingTableName
                 in
                 \<lparr>errorMap =
                    (case fst merged of
                       Some err \<Rightarrow>
                         [IdentifiesTable wu \<mapsto> None, UsersTable wu \<mapsto> None]
                           (UsersTable wu \<mapsto> Some err)
                     | None \<Rightarrow> [IdentifiesTable wu \<mapsto> None, UsersTable wu \<mapsto> None]),
                  u_db_after =
                    dropStagingTable (u_dropErr env) identifyStagingTable
                      (dropStagingTable (u_dropErr env) stagingTableName
                         (dropStagingTable (u_dropErr env) unionStagingTableName
                            (fst (snd merged)))),
                  u_rollbacks = rollbacks r @ snd (snd merged)\<rparr>))))"

definition LoadUserTables ::
  "warehouseutils \<Rightarrow> Postgres \<Rightarrow> Uploader \<Rightarrow> ('v::linorder) users_env \<Rightarrow> 'v db \<Rightarrow> 'v users_result" where
  "LoadUserTables wu pg up env db = loadUserTables wu pg up env db"

definition LoadTable ::
  "warehouseutils \<Rightarrow> Postgres \<Rightarrow> Uploader \<Rightarrow> ('v::linorder) load_env \<Rightarrow> 'v db \<Rightarrow> string
     \<Rightarrow> error option \<times> 'v db" where
  "LoadTable wu pg up env db tableName =
     (case loadTable wu pg env db tableName (GetTableSchemaInUpload up tableName) False of
        r \<Rightarrow> (load_err r, db_after r))"

section \<open>Concrete inputs\<close>

text \<open>Inputs on which the theorems below are instantiated and the definitions evaluated.\<close>

definition ex_wu :: warehouseutils where
  "ex_wu = \<lparr>UsersTable = ''users'', IdentifiesTable = ''identifies'',
            DiscardsTable = ''discards'', StagingTablePrefix = ''stg-'',
            SortColumnKeysFromColumnMap = map fst,
            StagingTableName = (\<lambda>t. ''stg-'' @ t)\<rparr>"

definition ex_pg :: Postgres where
  "ex_pg = \<lparr>Namespace = ''ns'', WorkspaceID = ''w1'', DestinationID = ''d1'',
            SkipComputingUserLatestTraits = False, EnableSQLStatementExecutionPlan = False,
            TxnRollbackTimeout = 30, SkipComputingUserLatestTraitsWorkspaceIDs = [],
            EnableSQLStatementExecutionPlanWorkspaceIDs = []\<rparr>"

definition ex_sweep_env :: sweep_env where
  "ex_sweep_env = \<lparr>queryErr = None, scanErr = (\<lambda>n. None), rowsErr = None,
                   dropTableErr = (\<lambda>n. if n = ''stg-b'' then Some (DriverError ''lock'') else None)\<rparr>"

definition ex_namespace :: "nat namespace" where
  "ex_namespace = [(''stg-a'', 1), (''users'', 2), (''stg-b'', 3)]"

text \<open>
  The same constants with a staging prefix that has underscores, an environment in which
  the sweep meets no failure, and a namespace with one table that has the prefix, one
  that has not but differs from it only where the prefix has an underscore, and one
  unrelated table.
\<close>

definition ex_wu_underscore :: warehouseutils where
  "ex_wu_underscore = ex_wu\<lparr>StagingTablePrefix := ''rudder_staging_''\<rparr>"

definition ex_sweep_env_ok :: sweep_env where
  "ex_sweep_env_ok = \<lparr>queryErr = None, scanErr = (\<lambda>n. None), rowsErr = None,
                      dropTableErr = (\<lambda>n. None)\<rparr>"

definition ex_namespace_underscore :: "nat namespace" where
  "ex_namespace_underscore =
     [(''rudder_staging_orders_ab12'', 1), (''rudderXstagingYorders'', 2), (''users'', 3)]"

text \<open>
  An environment in which every collaborator succeeds, for typed values that are natural
  numbers: the database reads a text as the sum of its code points.
\<close>

definition ex_env :: "load_file list \<Rightarrow> nat load_env" where
  "ex_env files =
     \<lparr>setSearchPathErr = None, DownloadLoadFiles = Inr files, beginTxErr = None,
      createErr = None, prepareErr = None, copyInErr = (\<lambda>vals. None),
      decode = (\<lambda>c f. sum_list f), copyFlushErr = None, explainDeleteErr = None,
      deleteErr = None, explainInsertErr = None, insertErr = None, commitErr = None,
      rollbackRun = Completes 1 None, rollbackPick = True, dropErr = (\<lambda>n. None)\<rparr>"

definition ex_file :: "csv_item list \<Rightarrow> load_file" where
  "ex_file items = \<lparr>openErr = None, gzipErr = None, csv = items\<rparr>"

text \<open>
  A table \<open>tracks\<close> with columns \<open>id\<close>, \<open>received_at\<close> and \<open>val\<close>, holding one row for
  key 1 and one for key 2, and two load files that each bring a row for key 1, the second
  more recent than the first.
\<close>

definition ex_schema :: TableSchema where
  "ex_schema = [(''id'', ''int''), (''received_at'', ''datetime''), (''val'', ''string'')]"

definition ex_db :: "nat db" where
  "ex_db = [(''tracks'',
             [[(''id'', Some 1), (''received_at'', Some 5), (''val'', Some 111)],
              [(''id'', Some 2), (''received_at'', Some 5), (''val'', Some 112)]])]"

definition ex_files :: "load_file list" where
  "ex_files = [ex_file [CsvRecord 1 [[1], [50], [97]]], ex_file [CsvRecord 1 [[1], [60], [98]]]]"

text \<open>A load file whose second record has one field where the schema has three columns.\<close>

definition ex_short_files :: "load_file list" where
  "ex_short_files = [ex_file [CsvRecord 1 [[1], [50], [97]], CsvRecord 2 [[1]]]]"

text \<open>
  A discards table holding the discarded value of column \<open>a\<close> of row 1, and a load file
  that brings the discarded value of column \<open>b\<close> of the same row.
\<close>

definition ex_discards_schema :: TableSchema where
  "ex_discards_schema =
     [(''column_name'', ''string''), (''received_at'', ''datetime''), (''row_id'', ''string''),
      (''table_name'', ''string'')]"

definition ex_discards_db :: "nat db" where
  "ex_discards_db =
     [(''discards'',
       [[(''column_name'', Some 97), (''received_at'', Some 5), (''row_id'', Some 1),
         (''table_name'', Some 116)]])]"

definition ex_discards_files :: "load_file list" where
  "ex_discards_files = [ex_file [CsvRecord 1 [[98], [60], [1], [116]]]]"

text \<open>The same environment, except that every \<open>DROP TABLE\<close> on the pool fails.\<close>

definition ex_env_drop_fails :: "load_file list \<Rightarrow> nat load_env" where
  "ex_env_drop_fails files =
     (ex_env files)\<lparr>dropErr := (\<lambda>n. Some (DriverError ''connection reset''))\<rparr>"

text \<open>
  An upload with an identifies table and a users table with the attribute \<open>attr\<close>, a
  namespace with both tables empty, and an environment in which nothing fails and no
  load file is there. In the second environment the first statement fails.
\<close>

definition ex_up :: Uploader where
  "ex_up = \<lparr>GetTableSchemaInUpload =
              (\<lambda>t. if t = ''identifies''
                    then [(''attr'', ''string''), (''id'', ''string''),
                          (''received_at'', ''datetime''), (''user_id'', ''string'')]
                    else [(''attr'', ''string''), (''id'', ''string''),
                          (''received_at'', ''datetime'')]),
            GetTableSchemaInWarehouse =
              (\<lambda>t. [(''attr'', ''string''), (''id'', ''string''),
                     (''received_at'', ''datetime'')])\<rparr>"

definition ex_users_db :: "nat db" where
  "ex_users_db = [(''identifies'', []), (''users'', [])]"

definition ex_users_env :: "nat users_env" where
  "ex_users_env =
     \<lparr>u_setSearchPathErr = None, identifiesEnv = ex_env [], usersEnv = ex_env [],
      createUnionErr = None, createUsersStagingErr = None, u_beginTxErr = None,
      u_explainDeleteErr = None, u_deleteErr = None, u_explainInsertErr = None,
      u_insertErr = None, u_commitErr = None, u_rollbackRun = Hangs, u_rollbackPick = False,
      u_dropErr = (\<lambda>n. None)\<rparr>"

definition ex_users_env_fails :: "nat users_env" where
  "ex_users_env_fails = ex_users_env\<lparr>u_setSearchPathErr := Some (DriverError ''bad connection'')\<rparr>"


section \<open>Properties of the error classification table\<close>

lemma classify_find:
  "classify es s =
     (case find (\<lambda>e. MatchString (Format e) s) es of None \<Rightarrow> UnknownError | Some e \<Rightarrow> Type e)"
  by (induction es) auto

text \<open>
  Claim C5. The table is a fixed ordered list, read first match wins: the host-lookup
  pattern, the missing-database and missing-relation patterns, the starting-up and
  shutting-down patterns and the recovery-mode pattern give resource-not-found; the
  connection-refused, password-authentication and permission-denied patterns give
  permission; the 1600-column pattern gives column-count; a text that matches no pattern
  is unclassified. Each pattern decides only when no earlier pattern of the list matches.
\<close>

theorem errorsMappings_first_match_wins:
  "classify ErrorMappings s =
    (if MatchString [Lit ''dial tcp: lookup '', DotStar, Lit '': no such host''] s
       then ResourceNotFoundError
     else if MatchString [Lit ''dial tcp '', DotStar, Lit '' connect: connection refused''] s
       then PermissionError
     else if MatchString [Lit ''pq: database '', DotStar, Lit '' does not exist''] s
       then ResourceNotFoundError
     else if MatchString [Lit ''pq: the database system is starting up''] s
       then ResourceNotFoundError
     else if MatchString [Lit ''pq: the database system is shutting down''] s
       then ResourceNotFoundError
     else if MatchString [Lit ''pq: relation '', DotStar, Lit '' does not exist''] s
       then ResourceNotFoundError
     else if MatchString [Lit ''pq: cannot set transaction read-write mode during recovery''] s
       then ResourceNotFoundError
     else if MatchString [Lit ''pq: tables can have at most 1600 columns''] s
       then ColumnCountError
     else if MatchString [Lit ''pq: password authentication failed for user''] s
       then PermissionError
     else if MatchString [Lit ''pq: permission denied''] s
       then PermissionError
     else UnknownError)"
  by (simp add: ErrorMappings_def errorsMappings_def)

theorem errorsMappings_first_match_wins_witness:
  "classify ErrorMappings ''pq: relation users does not exist'' = ResourceNotFoundError
   \<and> classify ErrorMappings ''pq: permission denied for schema ns'' = PermissionError
   \<and> classify ErrorMappings ''unexpected EOF'' = UnknownError"
  using errorsMappings_first_match_wins [of "''pq: relation users does not exist''"]
        errorsMappings_first_match_wins [of "''pq: permission denied for schema ns''"]
        errorsMappings_first_match_wins [of "''unexpected EOF''"]
  by (simp add: newline_def)

section \<open>Properties of the row decoding\<close>


lemma recordInterface_foldl:
  "foldl (\<lambda>acc v. if TrimSpace v = [] then acc @ [None] else acc @ [Some v]) acc row
     = acc @ map (\<lambda>v. if TrimSpace v = [] then None else Some v) row"
  by (induction row arbitrary: acc) auto

lemma recordInterface_map:
  "recordInterface row = map (\<lambda>v. if TrimSpace v = [] then None else Some v) row"
  by (simp add: recordInterface_def recordInterface_foldl)

lemma length_recordInterface: "length (recordInterface row) = length row"
  by (simp add: recordInterface_map)



section \<open>Properties of the crash recovery sweep\<close>

lemma like_percent: "like_match ''%'' s"
  by (induction s) auto

lemma like_literal_prefix:
  "CHR ''%'' \<notin> set p \<Longrightarrow> CHR ''_'' \<notin> set p \<Longrightarrow> CHR 0x5C \<notin> set p \<Longrightarrow>
   like_match (p @ ''%'') s = prefix p s"
proof (induction p arbitrary: s)
  case Nil
  then show ?case using like_percent by simp
next
  case (Cons a p)
  then show ?case by (cases s) auto
qed

lemma scan_rows_all:
  "scan_rows env acc ns =
     (if \<forall>n \<in> set ns. scanErr env n = None then Inr (acc @ ns)
      else Inl (the (scanErr env (hd (filter (\<lambda>n. scanErr env n \<noteq> None) ns)))))"
  by (induction ns arbitrary: acc) (auto split: option.splits)

lemma drop_each_fst:
  "fst (drop_each env ns b db) = (b \<and> (\<forall>n \<in> set ns. dropTableErr env n = None))"
  by (induction ns arbitrary: b db) (auto split: option.splits)

lemma drop_each_map_of:
  "map_of (snd (drop_each env ns b db)) n =
     (if n \<in> set ns \<and> dropTableErr env n = None then None else map_of db n)"
  by (induction ns arbitrary: b db) (auto split: option.splits simp: delete_conv')

lemma sweep_unfold:
  "dropDanglingStagingTables wu env db =
     (if queryErr env \<noteq> None
        then \<lparr>outcome = Returned False, attempted = [], tables_after = db\<rparr>
      else if \<exists>n \<in> set (candidates wu db). scanErr env n \<noteq> None
        then \<lparr>outcome = Panicked (the (scanErr env
                 (hd (filter (\<lambda>n. scanErr env n \<noteq> None) (candidates wu db))))),
              attempted = [], tables_after = db\<rparr>
      else if rowsErr env \<noteq> None
        then \<lparr>outcome = Panicked (the (rowsErr env)), attempted = [], tables_after = db\<rparr>
      else \<lparr>outcome = Returned (\<forall>n \<in> set (candidates wu db). dropTableErr env n = None),
            attempted = candidates wu db,
            tables_after = snd (drop_each env (candidates wu db) True db)\<rparr>)"
  using drop_each_fst[of env "candidates wu db" True db]
  by (auto simp: dropDanglingStagingTables_def scan_rows_all
           split: option.splits sum.splits prod.splits)

text \<open>
  What the sweep does for any staging prefix. A table whose name does not match the
  \<open>LIKE\<close> pattern made of the prefix keeps its content. When the candidate query and
  the reading of its rows succeed, a drop is attempted for exactly the matching names, in
  the order of the query, also after a failed drop; each matching table is gone when its
  drop succeeded and unchanged when it failed. The sweep returns true exactly when the
  candidate query, the reading of its rows and every drop succeeded. Only for a prefix
  without the pattern characters of \<open>LIKE\<close> is matching the same as having the prefix.
\<close>

lemma sweep_drops_matching_tables:
  "(\<forall>n. \<not> like_match (StagingTablePrefix wu @ ''%'') n \<longrightarrow>
         map_of (tables_after (CrashRecover wu env db)) n = map_of db n)
   \<and> (queryErr env = None \<and> (\<forall>n \<in> set (candidates wu db). scanErr env n = None)
       \<and> rowsErr env = None
         \<longrightarrow> attempted (CrashRecover wu env db) = candidates wu db
             \<and> (\<forall>n \<in> set (candidates wu db).
                   map_of (tables_after (CrashRecover wu env db)) n
                     = (if dropTableErr env n = None then None else map_of db n)))
   \<and> (outcome (CrashRecover wu env db) = Returned True \<longleftrightarrow>
           queryErr env = None \<and> (\<forall>n \<in> set (candidates wu db). scanErr env n = None)
           \<and> rowsErr env = None
           \<and> (\<forall>n \<in> set (candidates wu db). dropTableErr env n = None))
   \<and> (CHR ''%'' \<notin> set (StagingTablePrefix wu) \<and> CHR ''_'' \<notin> set (StagingTablePrefix wu)
         \<and> CHR 0x5C \<notin> set (StagingTablePrefix wu)
         \<longrightarrow> candidates wu db = filter (prefix (StagingTablePrefix wu)) (map fst db))"
proof (intro conjI)
  show "\<forall>n. \<not> like_match (StagingTablePrefix wu @ ''%'') n \<longrightarrow>
          map_of (tables_after (CrashRecover wu env db)) n = map_of db n"
    unfolding CrashRecover_def sweep_unfold
    by (auto simp: drop_each_map_of candidates_def)
  show "queryErr env = None \<and> (\<forall>n \<in> set (candidates wu db). scanErr env n = None)
        \<and> rowsErr env = None
         \<longrightarrow> attempted (CrashRecover wu env db) = candidates wu db
             \<and> (\<forall>n \<in> set (candidates wu db).
                   map_of (tables_after (CrashRecover wu env db)) n
                     = (if dropTableErr env n = None then None else map_of db n))"
    unfolding CrashRecover_def sweep_unfold
    by (auto simp: drop_each_map_of)
  show "outcome (CrashRecover wu env db) = Returned True \<longleftrightarrow>
           queryErr env = None \<and> (\<forall>n \<in> set (candidates wu db). scanErr env n = None)
           \<and> rowsErr env = None
           \<and> (\<forall>n \<in> set (candidates wu db). dropTableErr env n = None)"
    unfolding CrashRecover_def sweep_unfold
    by auto
  show "CHR ''%'' \<notin> set (StagingTablePrefix wu) \<and> CHR ''_'' \<notin> set (StagingTablePrefix wu)
         \<and> CHR 0x5C \<notin> set (StagingTablePrefix wu)
         \<longrightarrow> candidates wu db = filter (prefix (StagingTablePrefix wu)) (map fst db)"
    by (auto simp: candidates_def like_literal_prefix cong: filter_cong)
qed

lemma ex_candidates: "candidates ex_wu ex_namespace = [''stg-a'', ''stg-b'']"
  by (simp add: candidates_def ex_wu_def ex_namespace_def)

lemma sweep_drops_matching_tables_example:
  "queryErr ex_sweep_env = None
   \<and> candidates ex_wu ex_namespace = [''stg-a'', ''stg-b'']
   \<and> scanErr ex_sweep_env ''stg-a'' = None \<and> scanErr ex_sweep_env ''stg-b'' = None
   \<and> rowsErr ex_sweep_env = None
   \<and> CHR ''%'' \<notin> set (StagingTablePrefix ex_wu) \<and> CHR ''_'' \<notin> set (StagingTablePrefix ex_wu)
   \<and> CHR 0x5C \<notin> set (StagingTablePrefix ex_wu)
   \<and> \<not> like_match (StagingTablePrefix ex_wu @ ''%'') ''users''
   \<and> attempted (CrashRecover ex_wu ex_sweep_env ex_namespace) = [''stg-a'', ''stg-b'']
   \<and> map_of (tables_after (CrashRecover ex_wu ex_sweep_env ex_namespace)) ''stg-a'' = None
   \<and> map_of (tables_after (CrashRecover ex_wu ex_sweep_env ex_namespace)) ''stg-b'' = Some 3
   \<and> map_of (tables_after (CrashRecover ex_wu ex_sweep_env ex_namespace)) ''users'' = Some 2
   \<and> outcome (CrashRecover ex_wu ex_sweep_env ex_namespace) \<noteq> Returned True
   \<and> candidates ex_wu ex_namespace = filter (prefix ''stg-'') (map fst ex_namespace)"
proof -
  note T = sweep_drops_matching_tables [of ex_wu ex_sweep_env ex_namespace]
  have c: "candidates ex_wu ex_namespace = [''stg-a'', ''stg-b'']"
    by (rule ex_candidates)
  have e: "queryErr ex_sweep_env = None" "rowsErr ex_sweep_env = None"
    "scanErr ex_sweep_env ''stg-a'' = None" "scanErr ex_sweep_env ''stg-b'' = None"
    "dropTableErr ex_sweep_env ''stg-a'' = None"
    "dropTableErr ex_sweep_env ''stg-b'' \<noteq> None"
    by (simp_all add: ex_sweep_env_def)
  have p: "CHR ''%'' \<notin> set (StagingTablePrefix ex_wu)"
    "CHR ''_'' \<notin> set (StagingTablePrefix ex_wu)"
    "CHR 0x5C \<notin> set (StagingTablePrefix ex_wu)"
    "StagingTablePrefix ex_wu = ''stg-''"
    by (simp_all add: ex_wu_def)
  have u: "\<not> like_match (StagingTablePrefix ex_wu @ ''%'') ''users''"
    by (simp add: ex_wu_def)
  have m: "map_of ex_namespace ''stg-b'' = Some 3" "map_of ex_namespace ''users'' = Some 2"
    by (simp_all add: ex_namespace_def)
  have pre: "queryErr ex_sweep_env = None
     \<and> (\<forall>n \<in> set (candidates ex_wu ex_namespace). scanErr ex_sweep_env n = None)
     \<and> rowsErr ex_sweep_env = None"
    using e by (simp add: c)
  from T pre have att: "attempted (CrashRecover ex_wu ex_sweep_env ex_namespace)
      = candidates ex_wu ex_namespace"
    by blast
  from T pre have each: "\<forall>n \<in> set (candidates ex_wu ex_namespace).
      map_of (tables_after (CrashRecover ex_wu ex_sweep_env ex_namespace)) n
        = (if dropTableErr ex_sweep_env n = None then None else map_of ex_namespace n)"
    by blast
  from each have a: "map_of (tables_after (CrashRecover ex_wu ex_sweep_env ex_namespace)) ''stg-a'' = None"
    using e by (simp add: c)
  from each have b: "map_of (tables_after (CrashRecover ex_wu ex_sweep_env ex_namespace)) ''stg-b'' = Some 3"
    using e m by (simp add: c)
  from T u have us: "map_of (tables_after (CrashRecover ex_wu ex_sweep_env ex_namespace)) ''users'' = Some 2"
    using m by simp
  from T have "outcome (CrashRecover ex_wu ex_sweep_env ex_namespace) = Returned True
      \<longrightarrow> (\<forall>n \<in> set (candidates ex_wu ex_namespace). dropTableErr ex_sweep_env n = None)"
    by blast
  then have o: "outcome (CrashRecover ex_wu ex_sweep_env ex_namespace) \<noteq> Returned True"
    using e by (auto simp: c)
  from T p have f: "candidates ex_wu ex_namespace = filter (prefix ''stg-'') (map fst ex_namespace)"
    by simp
  show ?thesis
    using e(1-4) c p(1-3) u att a b us o f by simp
qed

text \<open>
  Claim C6 for a staging prefix with an underscore, as \<open>rudder_staging_\<close>. The
  candidate query gives the prefix to \<open>LIKE\<close> as it is, and \<open>LIKE\<close> reads an
  underscore as any one character. In the namespace below the table
  \<open>rudderXstagingYorders\<close> does not have the prefix; it is a candidate all the same, its
  drop is attempted and succeeds, the table is gone, and the sweep returns true.
\<close>

theorem sweep_drops_table_without_prefix:
  "StagingTablePrefix ex_wu_underscore = ''rudder_staging_''
   \<and> \<not> prefix (StagingTablePrefix ex_wu_underscore) ''rudderXstagingYorders''
   \<and> map_of ex_namespace_underscore ''rudderXstagingYorders'' = Some 2
   \<and> candidates ex_wu_underscore ex_namespace_underscore
       = [''rudder_staging_orders_ab12'', ''rudderXstagingYorders'']
   \<and> attempted (CrashRecover ex_wu_underscore ex_sweep_env_ok ex_namespace_underscore)
       = [''rudder_staging_orders_ab12'', ''rudderXstagingYorders'']
   \<and> tables_after (CrashRecover ex_wu_underscore ex_sweep_env_ok ex_namespace_underscore)
       = [(''users'', 3)]
   \<and> outcome (CrashRecover ex_wu_underscore ex_sweep_env_ok ex_namespace_underscore)
       = Returned True"
proof -
  have c: "candidates ex_wu_underscore ex_namespace_underscore
       = [''rudder_staging_orders_ab12'', ''rudderXstagingYorders'']"
    by (simp add: candidates_def ex_wu_underscore_def ex_namespace_underscore_def)
  have e: "queryErr ex_sweep_env_ok = None" "rowsErr ex_sweep_env_ok = None"
    "\<And>n. scanErr ex_sweep_env_ok n = None" "\<And>n. dropTableErr ex_sweep_env_ok n = None"
    by (simp_all add: ex_sweep_env_ok_def)
  have "CrashRecover ex_wu_underscore ex_sweep_env_ok ex_namespace_underscore
          = \<lparr>outcome = Returned True,
             attempted = [''rudder_staging_orders_ab12'', ''rudderXstagingYorders''],
             tables_after = [(''users'', 3)]\<rparr>"
    by (simp add: CrashRecover_def sweep_unfold c e)
       (simp add: ex_namespace_underscore_def AList.delete_eq)
  moreover have "StagingTablePrefix ex_wu_underscore = ''rudder_staging_''"
    by (simp add: ex_wu_underscore_def)
  moreover have "map_of ex_namespace_underscore ''rudderXstagingYorders'' = Some 2"
    by (simp add: ex_namespace_underscore_def)
  ultimately show ?thesis
    using c by simp
qed

section \<open>Properties of the rollback supervisor\<close>

lemma copy_row_rollback:
  "copy_row (env\<lparr>rollbackRun := run, rollbackPick := pick\<rparr>) cols vals = copy_row env cols vals"
  by (simp add: copy_row_def split: option.splits)

lemma copy_records_rollback:
  "copy_records (env\<lparr>rollbackRun := run, rollbackPick := pick\<rparr>) t cols fpr n items staged
     = copy_records env t cols fpr n items staged"
  by (induction items arbitrary: fpr n staged)
     (simp_all add: copy_row_rollback split: sum.splits prod.splits)

lemma copy_files_rollback:
  "copy_files (env\<lparr>rollbackRun := run, rollbackPick := pick\<rparr>) t cols files staged
     = copy_files env t cols files staged"
  by (induction files arbitrary: staged)
     (simp_all add: copy_records_rollback split: sum.splits option.splits)

lemma load_and_merge_rollback:
  "fst (load_and_merge wu pg (env\<lparr>rollbackRun := run, rollbackPick := pick\<rparr>) db txn t st cols files)
     = fst (load_and_merge wu pg env db txn t st cols files)
   \<and> fst (snd (load_and_merge wu pg (env\<lparr>rollbackRun := run, rollbackPick := pick\<rparr>) db txn t st cols files))
     = fst (snd (load_and_merge wu pg env db txn t st cols files))"
  by (simp add: load_and_merge_def copy_files_rollback Let_def
           split: option.splits sum.splits prod.splits)

lemma loadTable_rollback:
  "load_err (loadTable wu pg (env\<lparr>rollbackRun := run, rollbackPick := pick\<rparr>) db t schema skip)
     = load_err (loadTable wu pg env db t schema skip)
   \<and> db_after (loadTable wu pg (env\<lparr>rollbackRun := run, rollbackPick := pick\<rparr>) db t schema skip)
     = db_after (loadTable wu pg env db t schema skip)"
  by (simp add: loadTable_def Let_def load_and_merge_rollback
           split: option.splits sum.splits)

text \<open>
  Claim C9. The supervisor runs the rollback against the timeout it is given. When the
  rollback completes before the timeout, its error, if any, is logged and nothing else
  happens: no metric, and the supervisor returns when the rollback does. When the timeout
  comes first, or the rollback never returns, the timeout is logged, the callback is
  invoked with the tags, and the supervisor returns at the timeout. The supervisor hands
  nothing back: the error and the committed tables that loadTable returns are the same
  whatever the rollback does.
\<close>

theorem runRollbackWithTimeout_supervises:
  "(t < d \<longrightarrow>
      runRollbackWithTimeout (Completes t res) pick onTimeout d tgs
        = \<lparr>logged = (case res of None \<Rightarrow> [] | Some e \<Rightarrow> [RollbackFailed e]),
           metrics = [], returned_at = t\<rparr>)
   \<and> (d < t \<longrightarrow>
      runRollbackWithTimeout (Completes t res) pick onTimeout d tgs
        = \<lparr>logged = [RollbackTimedOut d], metrics = onTimeout tgs, returned_at = d\<rparr>)
   \<and> runRollbackWithTimeout Hangs pick onTimeout d tgs
        = \<lparr>logged = [RollbackTimedOut d], metrics = onTimeout tgs, returned_at = d\<rparr>
   \<and> handleRollbackTimeout tgs = [(''pg_rollback_timeout'', tgs)]
   \<and> load_err (loadTable wu pg (env\<lparr>rollbackRun := run, rollbackPick := pick\<rparr>) db tableName schema skip)
        = load_err (loadTable wu pg env db tableName schema skip)
   \<and> db_after (loadTable wu pg (env\<lparr>rollbackRun := run, rollbackPick := pick\<rparr>) db tableName schema skip)
        = db_after (loadTable wu pg env db tableName schema skip)"
  using loadTable_rollback
          [where wu = wu and pg = pg and env = env and run = run and pick = pick and db = db
             and t = tableName and schema = schema and skip = skip]
  by (simp add: runRollbackWithTimeout_def handleRollbackTimeout_def)

theorem runRollbackWithTimeout_supervises_witness:
  "(3::nat) < 30
   \<and> runRollbackWithTimeout (Completes 3 (Some (DriverError ''broken pipe''))) False
        handleRollbackTimeout 30 [(''stage'', ''dedup_stage'')]
        = \<lparr>logged = [RollbackFailed (DriverError ''broken pipe'')], metrics = [],
           returned_at = 3\<rparr>
   \<and> (30::nat) < 45
   \<and> runRollbackWithTimeout (Completes 45 None) True
        handleRollbackTimeout 30 [(''stage'', ''dedup_stage'')]
        = \<lparr>logged = [RollbackTimedOut 30],
           metrics = [(''pg_rollback_timeout'', [(''stage'', ''dedup_stage'')])],
           returned_at = 30\<rparr>"
proof -
  have a: "(3::nat) < 30" and b: "(30::nat) < 45"
    by simp_all
  note T1 = runRollbackWithTimeout_supervises
              [where t = 3 and d = 30 and res = "Some (DriverError ''broken pipe'')"
                 and pick = False and onTimeout = handleRollbackTimeout
                 and tgs = "[(''stage'', ''dedup_stage'')]", THEN conjunct1]
  note T2 = runRollbackWithTimeout_supervises
              [where t = 45 and d = 30 and res = None and pick = True
                 and onTimeout = handleRollbackTimeout
                 and tgs = "[(''stage'', ''dedup_stage'')]", THEN conjunct2, THEN conjunct1]
  from T1 a have c: "runRollbackWithTimeout (Completes 3 (Some (DriverError ''broken pipe''))) False
        handleRollbackTimeout 30 [(''stage'', ''dedup_stage'')]
        = \<lparr>logged = [RollbackFailed (DriverError ''broken pipe'')], metrics = [],
           returned_at = 3\<rparr>"
    by simp
  from T2 b have e: "runRollbackWithTimeout (Completes 45 None) True
        handleRollbackTimeout 30 [(''stage'', ''dedup_stage'')]
        = \<lparr>logged = [RollbackTimedOut 30],
           metrics = [(''pg_rollback_timeout'', [(''stage'', ''dedup_stage'')])],
           returned_at = 30\<rparr>"
    by (simp add: handleRollbackTimeout_def)
  from a b c e show ?thesis by simp
qed

section \<open>Properties of the two dedup statements\<close>

lemma sql_eq_Some: "a \<noteq> None \<Longrightarrow> sql_eq a b \<longleftrightarrow> a = b"
  by (auto simp: sql_eq_def split: option.splits)


lemma dedup_delete_set:
  "d \<in> set (dedup_delete pk additional dest staging) \<longleftrightarrow>
     d \<in> set dest \<and> (\<forall>s \<in> set staging. \<not> delete_condition pk additional s d)"
  by (auto simp: dedup_delete_def list_ex_iff)

lemma primaryKey_cases:
  "DiscardsTable wu \<noteq> UsersTable wu \<Longrightarrow> DiscardsTable wu \<noteq> IdentifiesTable wu \<Longrightarrow>
   primaryKey wu t = (if t = DiscardsTable wu then ''row_id'' else ''id'')"
  by (simp add: primaryKey_def primaryKeyMap_def)

lemma partitionKey_cases:
  "DiscardsTable wu \<noteq> UsersTable wu \<Longrightarrow> DiscardsTable wu \<noteq> IdentifiesTable wu \<Longrightarrow>
   partitionKey wu t
     = (if t = DiscardsTable wu then [''row_id'', ''column_name'', ''table_name''] else [''id''])"
  by (simp add: partitionKey_def partitionKeyMap_def)

lemma same_partition_sym: "same_partition keys a b \<longleftrightarrow> same_partition keys b a"
  by (auto simp: same_partition_def list_all_iff)

lemma same_partition_symD: "same_partition keys a b \<Longrightarrow> same_partition keys b a"
  by (auto simp: same_partition_def list_all_iff)

lemma same_partition_trans:
  "same_partition keys a b \<Longrightarrow> same_partition keys b c \<Longrightarrow> same_partition keys a c"
  by (auto simp: same_partition_def list_all_iff)

lemma same_partition_refl: "same_partition keys a a"
  by (simp add: same_partition_def list_all_iff)

lemma delete_condition_partition:
  assumes "DiscardsTable wu \<noteq> UsersTable wu" "DiscardsTable wu \<noteq> IdentifiesTable wu"
    and "\<forall>k \<in> set (partitionKey wu t). cell r k \<noteq> None"
  shows "delete_condition (primaryKey wu t) (additionalJoinClause wu t) r d
           \<longleftrightarrow> same_partition (partitionKey wu t) r d"
proof (cases "t = DiscardsTable wu")
  case True
  with assms show ?thesis
    by (auto simp: primaryKey_cases partitionKey_cases additionalJoinClause_def
                   delete_condition_def same_partition_def sql_eq_Some)
next
  case False
  with assms show ?thesis
    by (auto simp: primaryKey_cases partitionKey_cases additionalJoinClause_def
                   delete_condition_def same_partition_def sql_eq_Some)
qed

lemma desc_before_irrefl: "\<not> desc_before a a"
  by (simp add: desc_before_def split: option.splits)

lemma desc_before_trans: "desc_before a b \<Longrightarrow> desc_before b c \<Longrightarrow> desc_before a c"
  by (auto simp: desc_before_def split: option.splits)

lemma desc_before_total: "a \<noteq> b \<Longrightarrow> desc_before a b \<or> desc_before b a"
  by (cases a; cases b) (auto simp: desc_before_def)

lemma desc_maximal_exists:
  "finite I \<Longrightarrow> I \<noteq> {} \<Longrightarrow> \<exists>i \<in> I. \<forall>j \<in> I. \<not> desc_before (f j) (f i)"
proof (induction rule: finite_ne_induct)
  case (singleton x)
  then show ?case by (simp add: desc_before_irrefl)
next
  case (insert x F)
  then obtain m where m: "m \<in> F" "\<forall>j \<in> F. \<not> desc_before (f j) (f m)"
    by blast
  show ?case
  proof (cases "desc_before (f x) (f m)")
    case True
    have "\<forall>j \<in> insert x F. \<not> desc_before (f j) (f x)"
      using m True desc_before_trans desc_before_irrefl by blast
    then show ?thesis by blast
  next
    case False
    with m have "\<forall>j \<in> insert x F. \<not> desc_before (f j) (f m)"
      by blast
    with m show ?thesis by blast
  qed
qed

lemma row_number_1_iff:
  "row_number keys tbl i = 1 \<longleftrightarrow>
     (\<forall>j < length tbl. same_partition keys (tbl ! j) (tbl ! i) \<longrightarrow>
        \<not> desc_before (received_at (tbl ! j)) (received_at (tbl ! i))
        \<and> (j < i \<longrightarrow> desc_before (received_at (tbl ! i)) (received_at (tbl ! j))))"
  by (auto simp: row_number_def filter_empty_conv)

lemma filter_eq_single:
  "distinct xs \<Longrightarrow> a \<in> set xs \<Longrightarrow> filter (\<lambda>i. i = a) xs = [a]"
  by (induction xs) (auto simp: filter_empty_conv)

lemma ranked_first_partition:
  assumes r: "r \<in> set staging"
    and dist: "\<forall>i < length staging. \<forall>j < length staging.
                 i \<noteq> j \<and> same_partition keys (staging ! i) r \<and> same_partition keys (staging ! j) r
                 \<longrightarrow> received_at (staging ! i) \<noteq> received_at (staging ! j)"
  shows "\<exists>m. m \<in> set staging \<and> same_partition keys m r
            \<and> (\<forall>s \<in> set staging. same_partition keys s r
                  \<longrightarrow> \<not> desc_before (received_at s) (received_at m))
            \<and> filter (\<lambda>s. same_partition keys s r) (ranked_first keys staging) = [m]"
proof -
  let ?n = "length staging"
  let ?I = "{i. i < ?n \<and> same_partition keys (staging ! i) r}"
  let ?ra = "\<lambda>i. received_at (staging ! i)"
  from r obtain k where k: "k < ?n" "staging ! k = r"
    by (auto simp: in_set_conv_nth)
  then have "k \<in> ?I" by (simp add: same_partition_refl)
  then have ne: "?I \<noteq> {}" by blast
  have "finite ?I" by simp
  from desc_maximal_exists [OF this ne, of ?ra]
  obtain i0 where i0: "i0 < ?n" "same_partition keys (staging ! i0) r"
    and mx: "\<forall>j \<in> ?I. \<not> desc_before (?ra j) (?ra i0)"
    by blast
  from dist have D: "received_at (staging ! i) \<noteq> received_at (staging ! j)"
    if "i < ?n" "j < ?n" "i \<noteq> j" "same_partition keys (staging ! i) r"
       "same_partition keys (staging ! j) r" for i j
    using that by blast
  have before: "desc_before (?ra i0) (?ra j)" if "j \<in> ?I" "j \<noteq> i0" for j
  proof -
    from that have "j < ?n" "same_partition keys (staging ! j) r" by simp_all
    from D [OF this(1) i0(1) that(2) this(2) i0(2)] have "?ra j \<noteq> ?ra i0" .
    then have "desc_before (?ra j) (?ra i0) \<or> desc_before (?ra i0) (?ra j)"
      by (rule desc_before_total)
    moreover from mx that(1) have "\<not> desc_before (?ra j) (?ra i0)" by (rule bspec)
    ultimately show ?thesis by simp
  qed
  have first: "row_number keys staging i0 = 1"
    unfolding row_number_1_iff
  proof (intro allI impI conjI)
    fix j assume j: "j < ?n" "same_partition keys (staging ! j) (staging ! i0)"
    from same_partition_trans [OF j(2) i0(2)] j(1) have jI: "j \<in> ?I" by simp
    from mx jI show "\<not> desc_before (?ra j) (?ra i0)" by (rule bspec)
    assume "j < i0"
    then have "j \<noteq> i0" by simp
    with jI show "desc_before (?ra i0) (?ra j)" by (rule before)
  qed
  have only: "i = i0"
    if i: "i < ?n" "row_number keys staging i = 1" "same_partition keys (staging ! i) r" for i
  proof (rule ccontr)
    assume ne0: "i \<noteq> i0"
    from i have "i \<in> ?I" by simp
    from before [OF this ne0] have b: "desc_before (?ra i0) (?ra i)" .
    from same_partition_trans [OF i0(2) same_partition_symD [OF i(3)]]
    have "same_partition keys (staging ! i0) (staging ! i)" .
    with i(2) i0(1) have "\<not> desc_before (?ra i0) (?ra i)"
      unfolding row_number_1_iff by simp
    with b show False by simp
  qed
  have eq: "(row_number keys staging i = 1 \<and> same_partition keys (staging ! i) r) = (i = i0)"
    if "i < ?n" for i
  proof
    assume "row_number keys staging i = 1 \<and> same_partition keys (staging ! i) r"
    with that show "i = i0" using only [of i] by simp
  next
    assume "i = i0"
    with first i0(2) show "row_number keys staging i = 1 \<and> same_partition keys (staging ! i) r"
      by simp
  qed
  have "filter (\<lambda>i. row_number keys staging i = 1 \<and> same_partition keys (staging ! i) r) [0..<?n]
          = filter (\<lambda>i. i = i0) [0..<?n]"
  proof (rule filter_cong [OF refl])
    fix x assume "x \<in> set [0..<?n]"
    then have "x < ?n" by simp
    then show "(row_number keys staging x = 1 \<and> same_partition keys (staging ! x) r) = (x = i0)"
      by (rule eq)
  qed
  also have "\<dots> = [i0]"
    using i0(1) by (simp add: filter_eq_single)
  finally have sel: "filter (\<lambda>i. row_number keys staging i = 1
                               \<and> same_partition keys (staging ! i) r) [0..<?n] = [i0]" .
  have "filter (\<lambda>s. same_partition keys s r) (ranked_first keys staging)
          = map (\<lambda>i. staging ! i)
              (filter (\<lambda>i. row_number keys staging i = 1 \<and> same_partition keys (staging ! i) r)
                 [0..<?n])"
    by (simp only: ranked_first_def filter_map filter_filter comp_def)
  with sel have res: "filter (\<lambda>s. same_partition keys s r) (ranked_first keys staging)
                        = [staging ! i0]"
    by simp
  have top: "\<not> desc_before (received_at s) (received_at (staging ! i0))"
    if "s \<in> set staging" "same_partition keys s r" for s
  proof -
    from that(1) obtain j where j: "j < ?n" "staging ! j = s"
      by (auto simp: in_set_conv_nth)
    with that(2) have "j \<in> ?I" by simp
    with mx have "\<not> desc_before (?ra j) (?ra i0)" by (rule bspec)
    with j show ?thesis by simp
  qed
  from i0(1) have "staging ! i0 \<in> set staging" by simp
  with i0(2) res top show ?thesis by blast
qed

lemma cell_project: "cell (project cols r) c = (if c \<in> set cols then cell r c else None)"
  by (simp add: cell_def project_def map_of_map_restrict restrict_map_def)

lemma same_partition_project:
  "set keys \<subseteq> set cols \<Longrightarrow> same_partition keys (project cols s) r = same_partition keys s r"
  by (auto simp: same_partition_def list_all_iff cell_project)

lemma dedup_unique:
  assumes r: "r \<in> set staging"
    and del: "\<forall>d. delete_condition pk additional r d \<longleftrightarrow> same_partition keys r d"
    and sub: "set keys \<subseteq> set cols"
    and dist: "\<forall>i < length staging. \<forall>j < length staging.
                 i \<noteq> j \<and> same_partition keys (staging ! i) r \<and> same_partition keys (staging ! j) r
                 \<longrightarrow> received_at (staging ! i) \<noteq> received_at (staging ! j)"
  shows "\<exists>m. m \<in> set staging \<and> same_partition keys m r
            \<and> (\<forall>s \<in> set staging. same_partition keys s r
                  \<longrightarrow> \<not> desc_before (received_at s) (received_at m))
            \<and> filter (\<lambda>d. same_partition keys d r)
                 (dedup_insert cols keys (dedup_delete pk additional dest staging) staging)
               = [project cols m]"
proof -
  from ranked_first_partition [OF r dist]
  obtain m where m: "m \<in> set staging" "same_partition keys m r"
      "\<forall>s \<in> set staging. same_partition keys s r
          \<longrightarrow> \<not> desc_before (received_at s) (received_at m)"
      "filter (\<lambda>s. same_partition keys s r) (ranked_first keys staging) = [m]"
    by blast
  have "\<not> same_partition keys d r" if "d \<in> set (dedup_delete pk additional dest staging)" for d
  proof -
    from that r have "\<not> delete_condition pk additional r d"
      by (simp add: dedup_delete_set)
    with del have "\<not> same_partition keys r d" by simp
    then show ?thesis by (simp add: same_partition_sym)
  qed
  then have "filter (\<lambda>d. same_partition keys d r) (dedup_delete pk additional dest staging) = []"
    by (simp add: filter_empty_conv)
  moreover have "filter (\<lambda>d. same_partition keys d r) (map (project cols) (ranked_first keys staging))
                   = map (project cols) (filter (\<lambda>s. same_partition keys s r) (ranked_first keys staging))"
    by (simp add: filter_map comp_def same_partition_project [OF sub])
  ultimately have "filter (\<lambda>d. same_partition keys d r)
                 (dedup_insert cols keys (dedup_delete pk additional dest staging) staging)
               = [project cols m]"
    using m(4) by (simp add: dedup_insert_def)
  with m show ?thesis by blast
qed

section \<open>Properties of loadTable\<close>

lemma create_like_Inr:
  "create_like failure db st t = Inr txn \<Longrightarrow>
     (\<exists>dest. map_of db t = Some dest) \<and> map_of db st = None \<and> txn = db @ [(st, [])]"
  by (auto simp: create_like_def create_table_def table_of_def
           split: option.splits sum.splits if_splits)

lemma load_and_merge_failure:
  "fst (load_and_merge wu pg env db txn t st cols files) \<noteq> None \<Longrightarrow>
     fst (snd (load_and_merge wu pg env db txn t st cols files)) = db"
  by (auto simp: load_and_merge_def Let_def split: option.splits sum.splits prod.splits)

lemma load_and_merge_success:
  "fst (load_and_merge wu pg env db txn t st cols files) = None \<Longrightarrow>
     \<exists>staged. copy_files env t cols files [] = Inr staged
       \<and> fst (snd (load_and_merge wu pg env db txn t st cols files))
           = AList.update t
               (dedup_insert cols (partitionKey wu t)
                  (dedup_delete (primaryKey wu t) (additionalJoinClause wu t)
                     (case table_of txn t of Inl e \<Rightarrow> [] | Inr dest \<Rightarrow> dest) staged)
                  staged)
               (AList.update st staged txn)"
  by (auto simp: load_and_merge_def Let_def split: option.splits sum.splits prod.splits)

lemma loadTable_failure:
  assumes "load_err (loadTable wu pg env db t schema skip) \<noteq> None"
  shows "db_after (loadTable wu pg env db t schema skip) = db"
proof -
  have drop: "dropStagingTable (dropErr env) st db = db" if "map_of db st = None" for st
  proof -
    from that have "st \<notin> fst ` set db" by (simp add: map_of_eq_None_iff)
    then show ?thesis by (simp add: dropStagingTable_def split: option.splits)
  qed
  show ?thesis
    using assms
    by (auto simp: loadTable_def Let_def load_and_merge_failure drop
             split: option.splits sum.splits dest!: create_like_Inr)
qed

lemma loadTable_success:
  assumes "load_err (loadTable wu pg env db t schema skip) = None"
  shows "\<exists>dest files staged.
           map_of db t = Some dest \<and> DownloadLoadFiles env = Inr files
           \<and> map_of db (StagingTableName wu t) = None
           \<and> staging_name (loadTable wu pg env db t schema skip) = StagingTableName wu t
           \<and> copy_files env t (SortColumnKeysFromColumnMap wu schema) files [] = Inr staged
           \<and> map_of (db_after (loadTable wu pg env db t schema skip)) t
               = Some (dedup_insert (SortColumnKeysFromColumnMap wu schema) (partitionKey wu t)
                         (dedup_delete (primaryKey wu t) (additionalJoinClause wu t) dest staged)
                         staged)
           \<and> map_of (db_after (loadTable wu pg env db t schema skip)) (StagingTableName wu t)
               = (if skip \<or> dropErr env (StagingTableName wu t) \<noteq> None then Some staged else None)"
proof -
  let ?st = "StagingTableName wu t"
  let ?cols = "SortColumnKeysFromColumnMap wu schema"
  from assms obtain files txn where
    files: "DownloadLoadFiles env = Inr files"
    and txn: "create_like (createErr env) db ?st t = Inr txn"
    and ok: "fst (load_and_merge wu pg env db txn t ?st ?cols files) = None"
    and r: "loadTable wu pg env db t schema skip
              = \<lparr>staging_name = ?st, load_err = None,
                 db_after = (if \<not> skip
                             then dropStagingTable (dropErr env) ?st
                                    (fst (snd (load_and_merge wu pg env db txn t ?st ?cols files)))
                             else fst (snd (load_and_merge wu pg env db txn t ?st ?cols files))),
                 rollbacks = snd (snd (load_and_merge wu pg env db txn t ?st ?cols files))\<rparr>"
    by (auto simp: loadTable_def Let_def split: option.splits sum.splits)
  from create_like_Inr [OF txn] obtain dest where
    dest: "map_of db t = Some dest" and fresh: "map_of db ?st = None"
    and txn_eq: "txn = db @ [(?st, [])]"
    by blast
  from dest fresh have ne: "t \<noteq> ?st" by auto
  from dest txn_eq have tab: "table_of txn t = Inr dest"
    by (simp add: table_of_def)
  from load_and_merge_success [OF ok] obtain staged where
    staged: "copy_files env t ?cols files [] = Inr staged"
    and merged: "fst (snd (load_and_merge wu pg env db txn t ?st ?cols files))
           = AList.update t
               (dedup_insert ?cols (partitionKey wu t)
                  (dedup_delete (primaryKey wu t) (additionalJoinClause wu t) dest staged)
                  staged)
               (AList.update ?st staged txn)"
    by (auto simp: tab)
  have "map_of (db_after (loadTable wu pg env db t schema skip)) t
          = Some (dedup_insert ?cols (partitionKey wu t)
                    (dedup_delete (primaryKey wu t) (additionalJoinClause wu t) dest staged)
                    staged)"
    using ne by (simp add: r merged dropStagingTable_def update_conv' delete_conv'
                      split: option.splits)
  moreover have "map_of (db_after (loadTable wu pg env db t schema skip)) ?st
          = (if skip \<or> dropErr env ?st \<noteq> None then Some staged else None)"
    using ne by (auto simp: r merged dropStagingTable_def update_conv' delete_conv'
                      split: option.splits)
  moreover have "staging_name (loadTable wu pg env db t schema skip) = ?st"
    by (simp add: r)
  ultimately show ?thesis
    using dest files fresh staged by blast
qed

section \<open>Evaluation on the concrete inputs\<close>

lemmas ex_defs =
  ex_wu_def ex_pg_def ex_env_def ex_file_def ex_schema_def ex_db_def ex_files_def
  ex_short_files_def ex_discards_schema_def ex_discards_db_def ex_discards_files_def
  ex_env_drop_fails_def

lemmas load_defs =
  loadTable_def Let_def create_like_def table_of_def create_table_def load_and_merge_def
  load_tags_def planEnabled_def handleExecContext_def validate_def copy_row_def
  recordInterface_def TrimSpace_def isSpace_def dropStagingTable_def supervise_def
  runRollbackWithTimeout_def handleRollbackTimeout_def

lemmas dedup_defs =
  dedup_insert_def dedup_delete_def ranked_first_def row_number_def same_partition_def
  received_at_def delete_condition_def sql_eq_def cell_def project_def desc_before_def
  primaryKey_def primaryKeyMap_def partitionKey_def partitionKeyMap_def
  additionalJoinClause_def

lemma ex_tracks_staged:
  "copy_files (ex_env ex_files) ''tracks'' [''id'', ''received_at'', ''val''] ex_files []
     = Inr [[(''id'', Some 1), (''received_at'', Some 50), (''val'', Some 97)],
            [(''id'', Some 1), (''received_at'', Some 60), (''val'', Some 98)]]"
  by (simp add: ex_defs load_defs)

lemma ex_tracks_load:
  "loadTable ex_wu ex_pg (ex_env ex_files) ex_db ''tracks'' ex_schema False
     = \<lparr>staging_name = ''stg-tracks'', load_err = None,
        db_after = [(''tracks'',
             [[(''id'', Some 2), (''received_at'', Some 5), (''val'', Some 112)],
              [(''id'', Some 1), (''received_at'', Some 60), (''val'', Some 98)]])],
        rollbacks = []\<rparr>"
  by (simp add: ex_defs load_defs dedup_defs upt_rec_numeral)

lemma ex_tracks_load_keep:
  "loadTable ex_wu ex_pg (ex_env ex_files) ex_db ''tracks'' ex_schema True
     = \<lparr>staging_name = ''stg-tracks'', load_err = None,
        db_after = [(''tracks'',
             [[(''id'', Some 2), (''received_at'', Some 5), (''val'', Some 112)],
              [(''id'', Some 1), (''received_at'', Some 60), (''val'', Some 98)]]),
            (''stg-tracks'',
             [[(''id'', Some 1), (''received_at'', Some 50), (''val'', Some 97)],
              [(''id'', Some 1), (''received_at'', Some 60), (''val'', Some 98)]])],
        rollbacks = []\<rparr>"
  by (simp add: ex_defs load_defs dedup_defs upt_rec_numeral)

lemma ex_tracks_load_drop_fails:
  "loadTable ex_wu ex_pg (ex_env_drop_fails ex_files) ex_db ''tracks'' ex_schema False
     = \<lparr>staging_name = ''stg-tracks'', load_err = None,
        db_after = [(''tracks'',
             [[(''id'', Some 2), (''received_at'', Some 5), (''val'', Some 112)],
              [(''id'', Some 1), (''received_at'', Some 60), (''val'', Some 98)]]),
            (''stg-tracks'',
             [[(''id'', Some 1), (''received_at'', Some 50), (''val'', Some 97)],
              [(''id'', Some 1), (''received_at'', Some 60), (''val'', Some 98)]])],
        rollbacks = []\<rparr>"
  by (simp add: ex_defs load_defs dedup_defs upt_rec_numeral)

lemma ex_short_load:
  "loadTable ex_wu ex_pg (ex_env ex_short_files) ex_db ''tracks'' ex_schema False
     = \<lparr>staging_name = ''stg-tracks'', load_err = Some (CsvFieldCount 2),
        db_after = ex_db,
        rollbacks = [([(''workspaceId'', ''w1''), (''namepsace'', ''ns''),
                       (''destinationID'', ''d1''), (''tableName'', ''tracks''),
                       (''stage'', ''load_files_csv_reading'')],
                      \<lparr>logged = [], metrics = [], returned_at = 1\<rparr>)]\<rparr>"
  by (simp add: ex_defs load_defs readCsvLoadFiles_def)

lemma ex_discards_load:
  "loadTable ex_wu ex_pg (ex_env ex_discards_files) ex_discards_db ''discards''
     ex_discards_schema False
    = \<lparr>staging_name = ''stg-discards'', load_err = None,
       db_after =
         [(''discards'',
           [[(''column_name'', Some 97), (''received_at'', Some 5),
             (''row_id'', Some 1), (''table_name'', Some 116)],
            [(''column_name'', Some 98), (''received_at'', Some 60),
             (''row_id'', Some 1), (''table_name'', Some 116)]])],
       rollbacks = []\<rparr>"
  by (simp add: ex_defs load_defs dedup_defs upt_rec_numeral)

section \<open>The delete step\<close>

lemma dedup_delete_explicit:
  "dedup_delete (primaryKey wu t) (additionalJoinClause wu t) dest staging
     = filter (\<lambda>d. \<not> (\<exists>s \<in> set staging.
                        sql_eq (cell s (primaryKey wu t)) (cell d (primaryKey wu t))
                        \<and> (t = DiscardsTable wu \<longrightarrow>
                             sql_eq (cell s ''table_name'') (cell d ''table_name'')
                             \<and> sql_eq (cell s ''column_name'') (cell d ''column_name''))))
         dest"
  unfolding dedup_delete_def
  by (rule filter_cong [OF refl])
     (auto simp: delete_condition_def additionalJoinClause_def list_ex_iff)

text \<open>
  Claim C8. In a load that succeeds, the destination table from before the load, the load
  files and the rows copied from them to the staging table determine the destination
  table afterwards: the rows from before that the delete leaves, followed by the inserted
  rows. For a table other than the discards table, the delete removes exactly the rows
  whose primary key equals, in SQL's sense, the primary key of some staged row. For the
  discards table the primary key is \<open>row_id\<close>, and the delete removes exactly the rows
  for which some staged row has an equal \<open>row_id\<close>, an equal \<open>table_name\<close> and an equal
  \<open>column_name\<close>. In a load that fails nothing is deleted.
\<close>

theorem dedup_delete_key_match:
  assumes "DiscardsTable wu \<noteq> UsersTable wu" and "DiscardsTable wu \<noteq> IdentifiesTable wu"
  shows "(load_err (loadTable wu pg env db t schema skip) = None \<longrightarrow>
            (\<exists>before files staged.
               map_of db t = Some before \<and> DownloadLoadFiles env = Inr files
               \<and> copy_files env t (SortColumnKeysFromColumnMap wu schema) files [] = Inr staged
               \<and> (t \<noteq> DiscardsTable wu \<longrightarrow>
                    map_of (db_after (loadTable wu pg env db t schema skip)) t
                      = Some (filter (\<lambda>d. \<not> (\<exists>s \<in> set staged.
                                  sql_eq (cell s (primaryKey wu t)) (cell d (primaryKey wu t))))
                                before
                              @ map (project (SortColumnKeysFromColumnMap wu schema))
                                  (ranked_first (partitionKey wu t) staged)))
               \<and> (t = DiscardsTable wu \<longrightarrow>
                    primaryKey wu t = ''row_id''
                    \<and> map_of (db_after (loadTable wu pg env db t schema skip)) t
                        = Some (filter (\<lambda>d. \<not> (\<exists>s \<in> set staged.
                                    sql_eq (cell s ''row_id'') (cell d ''row_id'')
                                    \<and> sql_eq (cell s ''table_name'') (cell d ''table_name'')
                                    \<and> sql_eq (cell s ''column_name'') (cell d ''column_name'')))
                                  before
                                @ map (project (SortColumnKeysFromColumnMap wu schema))
                                    (ranked_first (partitionKey wu t) staged)))))
       \<and> (load_err (loadTable wu pg env db t schema skip) \<noteq> None \<longrightarrow>
            db_after (loadTable wu pg env db t schema skip) = db)"
proof (intro conjI impI)
  let ?cols = "SortColumnKeysFromColumnMap wu schema"
  assume "load_err (loadTable wu pg env db t schema skip) = None"
  from loadTable_success [OF this] obtain before files staged where
    b: "map_of db t = Some before" and f: "DownloadLoadFiles env = Inr files"
    and s: "copy_files env t ?cols files [] = Inr staged"
    and a: "map_of (db_after (loadTable wu pg env db t schema skip)) t
              = Some (dedup_insert ?cols (partitionKey wu t)
                        (dedup_delete (primaryKey wu t) (additionalJoinClause wu t) before staged)
                        staged)"
    by blast
  note e = dedup_delete_explicit [of wu t before staged]
  have other: "map_of (db_after (loadTable wu pg env db t schema skip)) t
                 = Some (filter (\<lambda>d. \<not> (\<exists>s \<in> set staged.
                             sql_eq (cell s (primaryKey wu t)) (cell d (primaryKey wu t))))
                           before
                         @ map (project ?cols) (ranked_first (partitionKey wu t) staged))"
    if "t \<noteq> DiscardsTable wu"
    using that a e by (simp add: dedup_insert_def)
  have pk: "primaryKey wu t = ''row_id''" if "t = DiscardsTable wu"
    using that assms by (simp add: primaryKey_cases)
  have disc: "map_of (db_after (loadTable wu pg env db t schema skip)) t
                = Some (filter (\<lambda>d. \<not> (\<exists>s \<in> set staged.
                            sql_eq (cell s ''row_id'') (cell d ''row_id'')
                            \<and> sql_eq (cell s ''table_name'') (cell d ''table_name'')
                            \<and> sql_eq (cell s ''column_name'') (cell d ''column_name'')))
                          before
                        @ map (project ?cols) (ranked_first (partitionKey wu t) staged))"
    if "t = DiscardsTable wu"
    using that a e pk [OF that] by (simp add: dedup_insert_def)
  from b f s other pk disc
  show "\<exists>before files staged.
               map_of db t = Some before \<and> DownloadLoadFiles env = Inr files
               \<and> copy_files env t ?cols files [] = Inr staged
               \<and> (t \<noteq> DiscardsTable wu \<longrightarrow>
                    map_of (db_after (loadTable wu pg env db t schema skip)) t
                      = Some (filter (\<lambda>d. \<not> (\<exists>s \<in> set staged.
                                  sql_eq (cell s (primaryKey wu t)) (cell d (primaryKey wu t))))
                                before
                              @ map (project ?cols) (ranked_first (partitionKey wu t) staged)))
               \<and> (t = DiscardsTable wu \<longrightarrow>
                    primaryKey wu t = ''row_id''
                    \<and> map_of (db_after (loadTable wu pg env db t schema skip)) t
                        = Some (filter (\<lambda>d. \<not> (\<exists>s \<in> set staged.
                                    sql_eq (cell s ''row_id'') (cell d ''row_id'')
                                    \<and> sql_eq (cell s ''table_name'') (cell d ''table_name'')
                                    \<and> sql_eq (cell s ''column_name'') (cell d ''column_name'')))
                                  before
                                @ map (project ?cols) (ranked_first (partitionKey wu t) staged)))"
    by blast
next
  assume "load_err (loadTable wu pg env db t schema skip) \<noteq> None"
  then show "db_after (loadTable wu pg env db t schema skip) = db"
    by (rule loadTable_failure)
qed

lemma ex_discards_staged:
  "copy_files (ex_env ex_discards_files) ''discards''
     [''column_name'', ''received_at'', ''row_id'', ''table_name''] ex_discards_files []
     = Inr [[(''column_name'', Some 98), (''received_at'', Some 60), (''row_id'', Some 1),
             (''table_name'', Some 116)]]"
  by (simp add: ex_defs load_defs)

theorem dedup_delete_key_match_witness:
  "DiscardsTable ex_wu \<noteq> UsersTable ex_wu \<and> DiscardsTable ex_wu \<noteq> IdentifiesTable ex_wu
   \<and> ''tracks'' \<noteq> DiscardsTable ex_wu \<and> ''discards'' = DiscardsTable ex_wu
   \<and> load_err (loadTable ex_wu ex_pg (ex_env ex_files) ex_db ''tracks'' ex_schema False) = None
   \<and> map_of ex_db ''tracks''
       = Some [[(''id'', Some 1), (''received_at'', Some 5), (''val'', Some 111)],
               [(''id'', Some 2), (''received_at'', Some 5), (''val'', Some 112)]]
   \<and> map_of (db_after (loadTable ex_wu ex_pg (ex_env ex_files) ex_db ''tracks'' ex_schema False))
        ''tracks''
       = Some [[(''id'', Some 2), (''received_at'', Some 5), (''val'', Some 112)],
               [(''id'', Some 1), (''received_at'', Some 60), (''val'', Some 98)]]
   \<and> load_err (loadTable ex_wu ex_pg (ex_env ex_discards_files) ex_discards_db ''discards''
                 ex_discards_schema False) = None
   \<and> primaryKey ex_wu ''discards'' = ''row_id''
   \<and> map_of (db_after (loadTable ex_wu ex_pg (ex_env ex_discards_files) ex_discards_db
                          ''discards'' ex_discards_schema False)) ''discards''
       = Some [[(''column_name'', Some 97), (''received_at'', Some 5), (''row_id'', Some 1),
                (''table_name'', Some 116)],
               [(''column_name'', Some 98), (''received_at'', Some 60), (''row_id'', Some 1),
                (''table_name'', Some 116)]]
   \<and> load_err (loadTable ex_wu ex_pg (ex_env ex_short_files) ex_db ''tracks'' ex_schema False)
       \<noteq> None
   \<and> db_after (loadTable ex_wu ex_pg (ex_env ex_short_files) ex_db ''tracks'' ex_schema False)
       = ex_db"
proof -
  let ?R1 = "loadTable ex_wu ex_pg (ex_env ex_files) ex_db ''tracks'' ex_schema False"
  let ?R2 = "loadTable ex_wu ex_pg (ex_env ex_discards_files) ex_discards_db ''discards''
               ex_discards_schema False"
  let ?R3 = "loadTable ex_wu ex_pg (ex_env ex_short_files) ex_db ''tracks'' ex_schema False"
  have n: "DiscardsTable ex_wu \<noteq> UsersTable ex_wu" "DiscardsTable ex_wu \<noteq> IdentifiesTable ex_wu"
    "''tracks'' \<noteq> DiscardsTable ex_wu" "''discards'' = DiscardsTable ex_wu"
    by (simp_all add: ex_wu_def)
  have w: "UsersTable ex_wu = ''users''" "IdentifiesTable ex_wu = ''identifies''"
    "DiscardsTable ex_wu = ''discards''"
    by (simp_all add: ex_wu_def)
  have ok1: "load_err ?R1 = None" by (simp add: ex_tracks_load)
  have ok2: "load_err ?R2 = None" by (simp add: ex_discards_load)
  have bad: "load_err ?R3 \<noteq> None" by (simp add: ex_short_load)
  have cols1: "SortColumnKeysFromColumnMap ex_wu ex_schema = [''id'', ''received_at'', ''val'']"
    by (simp add: ex_wu_def ex_schema_def)
  have cols2: "SortColumnKeysFromColumnMap ex_wu ex_discards_schema
                 = [''column_name'', ''received_at'', ''row_id'', ''table_name'']"
    by (simp add: ex_wu_def ex_discards_schema_def)
  have b1: "map_of ex_db ''tracks''
       = Some [[(''id'', Some 1), (''received_at'', Some 5), (''val'', Some 111)],
               [(''id'', Some 2), (''received_at'', Some 5), (''val'', Some 112)]]"
    by (simp add: ex_db_def)
  have b2: "map_of ex_discards_db ''discards''
       = Some [[(''column_name'', Some 97), (''received_at'', Some 5), (''row_id'', Some 1),
                (''table_name'', Some 116)]]"
    by (simp add: ex_discards_db_def)
  note T1 = dedup_delete_key_match [OF n(1) n(2), where pg = ex_pg and env = "ex_env ex_files"
              and db = ex_db and t = "''tracks''" and schema = ex_schema and skip = False]
  note T2 = dedup_delete_key_match [OF n(1) n(2), where pg = ex_pg
              and env = "ex_env ex_discards_files" and db = ex_discards_db
              and t = "''discards''" and schema = ex_discards_schema and skip = False]
  note T3 = dedup_delete_key_match [OF n(1) n(2), where pg = ex_pg
              and env = "ex_env ex_short_files" and db = ex_db
              and t = "''tracks''" and schema = ex_schema and skip = False]
  from T1 [THEN conjunct1, rule_format, OF ok1] obtain before files staged where
    o1: "map_of ex_db ''tracks'' = Some before"
    and f1: "DownloadLoadFiles (ex_env ex_files) = Inr files"
    and s1: "copy_files (ex_env ex_files) ''tracks''
               (SortColumnKeysFromColumnMap ex_wu ex_schema) files [] = Inr staged"
    and a1: "''tracks'' \<noteq> DiscardsTable ex_wu \<longrightarrow>
        map_of (db_after ?R1) ''tracks''
          = Some (filter (\<lambda>d. \<not> (\<exists>s \<in> set staged.
                      sql_eq (cell s (primaryKey ex_wu ''tracks''))
                             (cell d (primaryKey ex_wu ''tracks''))))
                    before
                  @ map (project (SortColumnKeysFromColumnMap ex_wu ex_schema))
                      (ranked_first (partitionKey ex_wu ''tracks'') staged))"
    by blast
  from o1 b1 have pb1: "before = [[(''id'', Some 1), (''received_at'', Some 5), (''val'', Some 111)],
               [(''id'', Some 2), (''received_at'', Some 5), (''val'', Some 112)]]"
    by simp
  from f1 have "files = ex_files" by (simp add: ex_env_def)
  with s1 have ps1: "staged = [[(''id'', Some 1), (''received_at'', Some 50), (''val'', Some 97)],
               [(''id'', Some 1), (''received_at'', Some 60), (''val'', Some 98)]]"
    by (simp add: cols1 ex_tracks_staged)
  from a1 n(3) have r1: "map_of (db_after ?R1) ''tracks''
       = Some [[(''id'', Some 2), (''received_at'', Some 5), (''val'', Some 112)],
               [(''id'', Some 1), (''received_at'', Some 60), (''val'', Some 98)]]"
    by (simp add: pb1 ps1 cols1 dedup_defs w upt_rec_numeral)
  from T2 [THEN conjunct1, rule_format, OF ok2] obtain before' files' staged' where
    o2: "map_of ex_discards_db ''discards'' = Some before'"
    and f2: "DownloadLoadFiles (ex_env ex_discards_files) = Inr files'"
    and s2: "copy_files (ex_env ex_discards_files) ''discards''
               (SortColumnKeysFromColumnMap ex_wu ex_discards_schema) files' [] = Inr staged'"
    and a2: "''discards'' = DiscardsTable ex_wu \<longrightarrow>
        primaryKey ex_wu ''discards'' = ''row_id''
        \<and> map_of (db_after ?R2) ''discards''
          = Some (filter (\<lambda>d. \<not> (\<exists>s \<in> set staged'.
                      sql_eq (cell s ''row_id'') (cell d ''row_id'')
                      \<and> sql_eq (cell s ''table_name'') (cell d ''table_name'')
                      \<and> sql_eq (cell s ''column_name'') (cell d ''column_name'')))
                    before'
                  @ map (project (SortColumnKeysFromColumnMap ex_wu ex_discards_schema))
                      (ranked_first (partitionKey ex_wu ''discards'') staged'))"
    by blast
  from o2 b2 have pb2: "before' = [[(''column_name'', Some 97), (''received_at'', Some 5),
                             (''row_id'', Some 1), (''table_name'', Some 116)]]"
    by simp
  from f2 have "files' = ex_discards_files" by (simp add: ex_env_def)
  with s2 have ps2: "staged' = [[(''column_name'', Some 98), (''received_at'', Some 60),
                                 (''row_id'', Some 1), (''table_name'', Some 116)]]"
    by (simp add: cols2 ex_discards_staged)
  from a2 n(4) have pk: "primaryKey ex_wu ''discards'' = ''row_id''"
    by blast
  from a2 n(4) have "map_of (db_after ?R2) ''discards''
          = Some (filter (\<lambda>d. \<not> (\<exists>s \<in> set staged'.
                      sql_eq (cell s ''row_id'') (cell d ''row_id'')
                      \<and> sql_eq (cell s ''table_name'') (cell d ''table_name'')
                      \<and> sql_eq (cell s ''column_name'') (cell d ''column_name'')))
                    before'
                  @ map (project (SortColumnKeysFromColumnMap ex_wu ex_discards_schema))
                      (ranked_first (partitionKey ex_wu ''discards'') staged'))"
    by blast
  then have r2: "map_of (db_after ?R2) ''discards''
       = Some [[(''column_name'', Some 97), (''received_at'', Some 5), (''row_id'', Some 1),
                (''table_name'', Some 116)],
               [(''column_name'', Some 98), (''received_at'', Some 60), (''row_id'', Some 1),
                (''table_name'', Some 116)]]"
    by (simp add: pb2 ps2 cols2 dedup_defs w upt_rec_numeral)
  from T3 [THEN conjunct2, rule_format, OF bad] have r3: "db_after ?R3 = ex_db" .
  from n ok1 b1 r1 ok2 pk r2 bad r3 show ?thesis by blast
qed

section \<open>The staging table at the end of a load\<close>

text \<open>
  Claim C4, as amended. When loadTable returns an error, the committed tables of the
  namespace are those from before the call, so that no staging table of the attempt
  exists. When it returns success and the caller did not ask to skip the cleanup, the
  staging table is gone provided the \<open>DROP TABLE IF EXISTS\<close> run at the return
  succeeded. When that drop fails, which is only logged, or when the caller asked to skip
  the cleanup, the staging table of a successful load is still there.
\<close>

theorem staging_table_after_load:
  "(load_err (loadTable wu pg env db t schema skip) \<noteq> None \<longrightarrow>
      db_after (loadTable wu pg env db t schema skip) = db)
   \<and> (load_err (loadTable wu pg env db t schema skip) = None \<and> \<not> skip
       \<and> dropErr env (staging_name (loadTable wu pg env db t schema skip)) = None \<longrightarrow>
      map_of (db_after (loadTable wu pg env db t schema skip))
        (staging_name (loadTable wu pg env db t schema skip)) = None)
   \<and> (load_err (loadTable wu pg env db t schema skip) = None
       \<and> (skip \<or> dropErr env (staging_name (loadTable wu pg env db t schema skip)) \<noteq> None) \<longrightarrow>
      map_of (db_after (loadTable wu pg env db t schema skip))
        (staging_name (loadTable wu pg env db t schema skip)) \<noteq> None)"
proof (intro conjI impI)
  assume "load_err (loadTable wu pg env db t schema skip) \<noteq> None"
  then show "db_after (loadTable wu pg env db t schema skip) = db"
    by (rule loadTable_failure)
next
  assume a: "load_err (loadTable wu pg env db t schema skip) = None \<and> \<not> skip
       \<and> dropErr env (staging_name (loadTable wu pg env db t schema skip)) = None"
  then have "load_err (loadTable wu pg env db t schema skip) = None" by blast
  from loadTable_success [OF this] a
  show "map_of (db_after (loadTable wu pg env db t schema skip))
        (staging_name (loadTable wu pg env db t schema skip)) = None"
    by auto
next
  assume a: "load_err (loadTable wu pg env db t schema skip) = None
       \<and> (skip \<or> dropErr env (staging_name (loadTable wu pg env db t schema skip)) \<noteq> None)"
  then have "load_err (loadTable wu pg env db t schema skip) = None" by blast
  from loadTable_success [OF this] a
  show "map_of (db_after (loadTable wu pg env db t schema skip))
        (staging_name (loadTable wu pg env db t schema skip)) \<noteq> None"
    by auto
qed

theorem staging_table_after_load_witness:
  "load_err (loadTable ex_wu ex_pg (ex_env ex_short_files) ex_db ''tracks'' ex_schema False) \<noteq> None
   \<and> db_after (loadTable ex_wu ex_pg (ex_env ex_short_files) ex_db ''tracks'' ex_schema False)
       = ex_db
   \<and> load_err (loadTable ex_wu ex_pg (ex_env ex_files) ex_db ''tracks'' ex_schema False) = None
   \<and> dropErr (ex_env ex_files) ''stg-tracks'' = None
   \<and> map_of (db_after (loadTable ex_wu ex_pg (ex_env ex_files) ex_db ''tracks'' ex_schema False))
        ''stg-tracks'' = None
   \<and> load_err (loadTable ex_wu ex_pg (ex_env ex_files) ex_db ''tracks'' ex_schema True) = None
   \<and> map_of (db_after (loadTable ex_wu ex_pg (ex_env ex_files) ex_db ''tracks'' ex_schema True))
        ''stg-tracks'' \<noteq> None"
proof -
  have e: "load_err (loadTable ex_wu ex_pg (ex_env ex_short_files) ex_db ''tracks'' ex_schema False)
             \<noteq> None"
    by (simp add: ex_short_load)
  have s: "load_err (loadTable ex_wu ex_pg (ex_env ex_files) ex_db ''tracks'' ex_schema False) = None"
    "staging_name (loadTable ex_wu ex_pg (ex_env ex_files) ex_db ''tracks'' ex_schema False)
       = ''stg-tracks''"
    by (simp_all add: ex_tracks_load)
  have k: "load_err (loadTable ex_wu ex_pg (ex_env ex_files) ex_db ''tracks'' ex_schema True) = None"
    "staging_name (loadTable ex_wu ex_pg (ex_env ex_files) ex_db ''tracks'' ex_schema True)
       = ''stg-tracks''"
    by (simp_all add: ex_tracks_load_keep)
  have d: "dropErr (ex_env ex_files) ''stg-tracks'' = None"
    by (simp add: ex_env_def)
  note T1 = staging_table_after_load
              [where wu = ex_wu and pg = ex_pg and env = "ex_env ex_short_files" and db = ex_db
                 and t = "''tracks''" and schema = ex_schema and skip = False, THEN conjunct1]
  note T2 = staging_table_after_load
              [where wu = ex_wu and pg = ex_pg and env = "ex_env ex_files" and db = ex_db
                 and t = "''tracks''" and schema = ex_schema and skip = False,
               THEN conjunct2, THEN conjunct1]
  note T3 = staging_table_after_load
              [where wu = ex_wu and pg = ex_pg and env = "ex_env ex_files" and db = ex_db
                 and t = "''tracks''" and schema = ex_schema and skip = True,
               THEN conjunct2, THEN conjunct2]
  from T1 e have r1: "db_after (loadTable ex_wu ex_pg (ex_env ex_short_files) ex_db ''tracks''
                        ex_schema False) = ex_db"
    by blast
  from T2 s d have r2: "map_of (db_after (loadTable ex_wu ex_pg (ex_env ex_files) ex_db ''tracks''
                        ex_schema False)) ''stg-tracks'' = None"
    by simp
  from T3 k have r3: "map_of (db_after (loadTable ex_wu ex_pg (ex_env ex_files) ex_db ''tracks''
                        ex_schema True)) ''stg-tracks'' \<noteq> None"
    by simp
  from e r1 s(1) d r2 k(1) r3 show ?thesis by blast
qed

text \<open>
  Claim C4 as stated fails: the load below succeeds, the caller did not ask to skip the
  cleanup, the drop fails, and the staging table is in the namespace when loadTable has
  returned.
\<close>

theorem staging_table_survives_failed_drop:
  "load_err (loadTable ex_wu ex_pg (ex_env_drop_fails ex_files) ex_db ''tracks'' ex_schema False)
     = None
   \<and> staging_name (loadTable ex_wu ex_pg (ex_env_drop_fails ex_files) ex_db ''tracks'' ex_schema
        False) = ''stg-tracks''
   \<and> map_of ex_db ''stg-tracks'' = None
   \<and> map_of (db_after (loadTable ex_wu ex_pg (ex_env_drop_fails ex_files) ex_db ''tracks''
        ex_schema False)) ''stg-tracks''
       = Some [[(''id'', Some 1), (''received_at'', Some 50), (''val'', Some 97)],
               [(''id'', Some 1), (''received_at'', Some 60), (''val'', Some 98)]]"
proof -
  have "map_of ex_db ''stg-tracks'' = None"
    by (simp add: ex_db_def)
  then show ?thesis
    by (simp add: ex_tracks_load_drop_fails)
qed

section \<open>A row with the wrong number of fields\<close>

lemmas stage_defs =
  createStagingTable_def copyInSchemaStagingTable_def openLoadFiles_def readGzipLoadFiles_def
  readCsvLoadFiles_def csvColumnCountMismatch_def loadStagingTable_def
  stagingTableloadStage_def deleteDedup_def insertDedup_def dedupStage_def

text \<open>
  The mismatch error of the stage \<open>csv_column_count_mismatch\<close> can only come from the
  first record of a file, so that the count of processed rows it carries is 0: once a
  record of the right length has been read, the reader itself refuses every record of
  another length. (A record of the reader has at least one field.)
\<close>

lemma copy_records_mismatch_zero:
  assumes "copy_records env t cols fpr n items staged
             = Inl (csvColumnCountMismatch, ColumnCountMismatch a b c k)"
    and "(fpr = 0 \<and> n = 0) \<or> (fpr = length cols \<and> 0 < fpr)"
    and "\<forall>ln. CsvRecord ln [] \<notin> set items"
  shows "k = 0"
  using assms
proof (induction items arbitrary: fpr n staged)
  case Nil
  then show ?case by simp
next
  case (Cons item rest)
  show ?case
  proof (cases item)
    case (CsvMalformed ln)
    with Cons.prems(1) show ?thesis by (simp add: stage_defs)
  next
    case (CsvRecord ln r)
    with Cons.prems(3) have r: "r \<noteq> []" by auto
    from Cons.prems(3) have rest: "\<forall>ln. CsvRecord ln [] \<notin> set rest" by simp
    show ?thesis
    proof (cases "length cols = length r")
      case False
      with Cons.prems(1,2) CsvRecord show ?thesis
        by (auto simp: stage_defs split: if_splits)
    next
      case True
      with r have pos: "0 < length cols" by simp
      from True Cons.prems(1,2) CsvRecord obtain row where
        "copy_records env t cols (length cols) (n + 1) rest (staged @ [row])
           = Inl (csvColumnCountMismatch, ColumnCountMismatch a b c k)"
        by (auto simp: stage_defs split: if_splits sum.splits)
      from Cons.IH [OF this _ rest] pos show ?thesis by simp
    qed
  qed
qed

lemma copy_files_mismatch_zero:
  assumes "copy_files env t cols files staged
             = Inl (csvColumnCountMismatch, ColumnCountMismatch a b c k)"
    and "\<forall>f \<in> set files. \<forall>ln. CsvRecord ln [] \<notin> set (csv f)"
  shows "k = 0"
  using assms
proof (induction files arbitrary: staged)
  case Nil
  then show ?case by simp
next
  case (Cons f fs)
  from Cons.prems(2) have f: "\<forall>ln. CsvRecord ln [] \<notin> set (csv f)"
    and fs: "\<forall>f \<in> set fs. \<forall>ln. CsvRecord ln [] \<notin> set (csv f)"
    by simp_all
  from Cons.prems(1) consider
      "copy_records env t cols 0 0 (csv f) staged
         = Inl (csvColumnCountMismatch, ColumnCountMismatch a b c k)"
    | staged' where "copy_files env t cols fs staged'
         = Inl (csvColumnCountMismatch, ColumnCountMismatch a b c k)"
    by (auto simp: stage_defs split: option.splits sum.splits)
  then show ?case
  proof cases
    case 1
    from copy_records_mismatch_zero [OF this _ f] show ?thesis by simp
  next
    case 2
    from Cons.IH [OF this fs] show ?thesis .
  qed
qed

text \<open>
  Claim C2 on a row after the first of its file. The file below has a first record of
  three fields, as many as the schema has columns, and a second record of one field. The
  load is aborted, the rollback supervisor runs and the committed tables are untouched;
  but the error returned is the reader's own field-count error for line 2, from the stage
  of CSV reading, and not the mismatch error that carries the count of processed rows.
\<close>

theorem short_row_after_first_reports_no_count:
  "load_err (loadTable ex_wu ex_pg (ex_env ex_short_files) ex_db ''tracks'' ex_schema False)
     = Some (CsvFieldCount 2)
   \<and> load_err (loadTable ex_wu ex_pg (ex_env ex_short_files) ex_db ''tracks'' ex_schema False)
     \<noteq> Some (ColumnCountMismatch 1 ''tracks'' 3 1)
   \<and> db_after (loadTable ex_wu ex_pg (ex_env ex_short_files) ex_db ''tracks'' ex_schema False)
     = ex_db
   \<and> map (\<lambda>rb. map_of (fst rb) ''stage'')
        (rollbacks (loadTable ex_wu ex_pg (ex_env ex_short_files) ex_db ''tracks'' ex_schema False))
     = [Some readCsvLoadFiles]"
  by (simp add: ex_short_load readCsvLoadFiles_def)

section \<open>One row per key after a load\<close>

text \<open>
  Claim C1, as amended. After a successful load the destination table is what the two
  dedup statements make of it. The delete removes every row for which some staging row
  has an equal primary key and, for the discards table only, also an equal
  \<open>table_name\<close> and an equal \<open>column_name\<close>. The insert then adds, restricted to the
  loaded columns, the staging rows whose row number is 1 when partitioning by the
  partition key and ordering by \<open>received_at\<close> descending. Hence, when the partition
  key columns are among the loaded columns, for every staging row whose partition key
  cells are not null and whose partition has pairwise different \<open>received_at\<close>, the
  destination ends with exactly one row of that partition key: a staging row of the
  partition that no row of the partition precedes in the descending order.
\<close>

theorem loadTable_keeps_latest_per_key:
  assumes "load_err (loadTable wu pg env db t schema skip) = None"
    and "DiscardsTable wu \<noteq> UsersTable wu" and "DiscardsTable wu \<noteq> IdentifiesTable wu"
    and "set (partitionKey wu t) \<subseteq> set (SortColumnKeysFromColumnMap wu schema)"
  shows "\<exists>before files staged.
     map_of db t = Some before \<and> DownloadLoadFiles env = Inr files
     \<and> copy_files env t (SortColumnKeysFromColumnMap wu schema) files [] = Inr staged
     \<and> map_of (db_after (loadTable wu pg env db t schema skip)) t
         = Some (dedup_delete (primaryKey wu t) (additionalJoinClause wu t) before staged
                 @ map (project (SortColumnKeysFromColumnMap wu schema))
                     (ranked_first (partitionKey wu t) staged))
     \<and> dedup_delete (primaryKey wu t) (additionalJoinClause wu t) before staged
         = filter (\<lambda>d. \<not> (\<exists>s \<in> set staged.
                        sql_eq (cell s (primaryKey wu t)) (cell d (primaryKey wu t))
                        \<and> (t = DiscardsTable wu \<longrightarrow>
                             sql_eq (cell s ''table_name'') (cell d ''table_name'')
                             \<and> sql_eq (cell s ''column_name'') (cell d ''column_name''))))
             before
     \<and> ranked_first (partitionKey wu t) staged
         = map (\<lambda>i. staged ! i)
             (filter (\<lambda>i. row_number (partitionKey wu t) staged i = 1) [0..<length staged])
     \<and> (\<forall>r \<in> set staged.
           (\<forall>k \<in> set (partitionKey wu t). cell r k \<noteq> None)
           \<and> (\<forall>i < length staged. \<forall>j < length staged.
                 i \<noteq> j \<and> same_partition (partitionKey wu t) (staged ! i) r
                 \<and> same_partition (partitionKey wu t) (staged ! j) r
                 \<longrightarrow> received_at (staged ! i) \<noteq> received_at (staged ! j))
           \<longrightarrow> (\<exists>m \<in> set staged.
                  same_partition (partitionKey wu t) m r
                  \<and> (\<forall>s \<in> set staged. same_partition (partitionKey wu t) s r
                        \<longrightarrow> \<not> desc_before (received_at s) (received_at m))
                  \<and> filter (\<lambda>d. same_partition (partitionKey wu t) d r)
                       (dedup_delete (primaryKey wu t) (additionalJoinClause wu t) before staged
                        @ map (project (SortColumnKeysFromColumnMap wu schema))
                            (ranked_first (partitionKey wu t) staged))
                     = [project (SortColumnKeysFromColumnMap wu schema) m]))"
proof -
  let ?cols = "SortColumnKeysFromColumnMap wu schema"
  let ?keys = "partitionKey wu t"
  let ?pk = "primaryKey wu t"
  let ?add = "additionalJoinClause wu t"
  from loadTable_success [OF assms(1)] obtain before files staged where
    b: "map_of db t = Some before" and f: "DownloadLoadFiles env = Inr files"
    and s: "copy_files env t ?cols files [] = Inr staged"
    and a: "map_of (db_after (loadTable wu pg env db t schema skip)) t
              = Some (dedup_insert ?cols ?keys (dedup_delete ?pk ?add before staged) staged)"
    by blast
  have one: "\<exists>m \<in> set staged.
                  same_partition ?keys m r
                  \<and> (\<forall>s \<in> set staged. same_partition ?keys s r
                        \<longrightarrow> \<not> desc_before (received_at s) (received_at m))
                  \<and> filter (\<lambda>d. same_partition ?keys d r)
                       (dedup_delete ?pk ?add before staged
                        @ map (project ?cols) (ranked_first ?keys staged))
                     = [project ?cols m]"
    if r: "r \<in> set staged" and nn: "\<forall>k \<in> set ?keys. cell r k \<noteq> None"
      and dist: "\<forall>i < length staged. \<forall>j < length staged.
                 i \<noteq> j \<and> same_partition ?keys (staged ! i) r
                 \<and> same_partition ?keys (staged ! j) r
                 \<longrightarrow> received_at (staged ! i) \<noteq> received_at (staged ! j)" for r
  proof -
    have del: "\<forall>d. delete_condition ?pk ?add r d \<longleftrightarrow> same_partition ?keys r d"
      using delete_condition_partition [OF assms(2) assms(3) nn] by blast
    from dedup_unique [OF r del assms(4) dist, of before]
    show ?thesis by (simp add: dedup_insert_def) blast
  qed
  have "ranked_first ?keys staged
         = map (\<lambda>i. staged ! i)
             (filter (\<lambda>i. row_number ?keys staged i = 1) [0..<length staged])"
    by (simp only: ranked_first_def)
  with b f s a one dedup_delete_explicit [of wu t before staged] show ?thesis
    unfolding dedup_insert_def by blast
qed

theorem loadTable_keeps_latest_per_key_witness:
  "load_err (loadTable ex_wu ex_pg (ex_env ex_files) ex_db ''tracks'' ex_schema False) = None
   \<and> DiscardsTable ex_wu \<noteq> UsersTable ex_wu \<and> DiscardsTable ex_wu \<noteq> IdentifiesTable ex_wu
   \<and> set (partitionKey ex_wu ''tracks'') \<subseteq> set (SortColumnKeysFromColumnMap ex_wu ex_schema)
   \<and> copy_files (ex_env ex_files) ''tracks'' (SortColumnKeysFromColumnMap ex_wu ex_schema)
        ex_files []
       = Inr [[(''id'', Some 1), (''received_at'', Some 50), (''val'', Some 97)],
              [(''id'', Some 1), (''received_at'', Some 60), (''val'', Some 98)]]
   \<and> filter (\<lambda>d. same_partition (partitionKey ex_wu ''tracks'') d
                    [(''id'', Some 1), (''received_at'', Some 50), (''val'', Some 97)])
        (case map_of (db_after (loadTable ex_wu ex_pg (ex_env ex_files) ex_db ''tracks''
                                  ex_schema False)) ''tracks'' of
           None \<Rightarrow> [] | Some rows \<Rightarrow> rows)
       = [[(''id'', Some 1), (''received_at'', Some 60), (''val'', Some 98)]]"
proof -
  let ?r1 = "[(''id'', Some 1), (''received_at'', Some 50), (''val'', Some 97)] :: nat row"
  let ?r2 = "[(''id'', Some 1), (''received_at'', Some 60), (''val'', Some 98)] :: nat row"
  let ?cols = "SortColumnKeysFromColumnMap ex_wu ex_schema"
  let ?keys = "partitionKey ex_wu ''tracks''"
  let ?res = "loadTable ex_wu ex_pg (ex_env ex_files) ex_db ''tracks'' ex_schema False"
  have h1: "load_err ?res = None"
    by (simp add: ex_tracks_load)
  have h2: "DiscardsTable ex_wu \<noteq> UsersTable ex_wu"
    and h3: "DiscardsTable ex_wu \<noteq> IdentifiesTable ex_wu"
    by (simp_all add: ex_wu_def)
  have cols: "?cols = [''id'', ''received_at'', ''val'']"
    by (simp add: ex_wu_def ex_schema_def)
  have keys: "?keys = [''id'']"
    by (simp add: partitionKey_def partitionKeyMap_def ex_wu_def)
  have h4: "set ?keys \<subseteq> set ?cols"
    by (simp add: cols keys)
  have st: "copy_files (ex_env ex_files) ''tracks'' ?cols ex_files [] = Inr [?r1, ?r2]"
    by (simp only: cols ex_tracks_staged)
  from loadTable_keeps_latest_per_key [OF h1 h2 h3 h4]
  obtain before files staged where
    f: "DownloadLoadFiles (ex_env ex_files) = Inr files"
    and s: "copy_files (ex_env ex_files) ''tracks'' ?cols files [] = Inr staged"
    and a: "map_of (db_after ?res) ''tracks''
              = Some (dedup_delete (primaryKey ex_wu ''tracks'')
                        (additionalJoinClause ex_wu ''tracks'') before staged
                      @ map (project ?cols) (ranked_first ?keys staged))"
    and u: "\<forall>r \<in> set staged.
           (\<forall>k \<in> set ?keys. cell r k \<noteq> None)
           \<and> (\<forall>i < length staged. \<forall>j < length staged.
                 i \<noteq> j \<and> same_partition ?keys (staged ! i) r
                 \<and> same_partition ?keys (staged ! j) r
                 \<longrightarrow> received_at (staged ! i) \<noteq> received_at (staged ! j))
           \<longrightarrow> (\<exists>m \<in> set staged.
                  same_partition ?keys m r
                  \<and> (\<forall>s \<in> set staged. same_partition ?keys s r
                        \<longrightarrow> \<not> desc_before (received_at s) (received_at m))
                  \<and> filter (\<lambda>d. same_partition ?keys d r)
                       (dedup_delete (primaryKey ex_wu ''tracks'')
                          (additionalJoinClause ex_wu ''tracks'') before staged
                        @ map (project ?cols) (ranked_first ?keys staged))
                     = [project ?cols m])"
    by blast
  from f have "files = ex_files" by (simp add: ex_env_def)
  with s st have staged: "staged = [?r1, ?r2]" by simp
  have nn: "\<forall>k \<in> set ?keys. cell ?r1 k \<noteq> None"
    by (simp add: keys cell_def)
  have dist: "\<forall>i < length staged. \<forall>j < length staged.
                 i \<noteq> j \<and> same_partition ?keys (staged ! i) ?r1
                 \<and> same_partition ?keys (staged ! j) ?r1
                 \<longrightarrow> received_at (staged ! i) \<noteq> received_at (staged ! j)"
    by (auto simp: staged less_Suc_eq numeral_2_eq_2 received_at_def cell_def)
  have "?r1 \<in> set staged" by (simp add: staged)
  with u have "(\<forall>k \<in> set ?keys. cell ?r1 k \<noteq> None)
           \<and> (\<forall>i < length staged. \<forall>j < length staged.
                 i \<noteq> j \<and> same_partition ?keys (staged ! i) ?r1
                 \<and> same_partition ?keys (staged ! j) ?r1
                 \<longrightarrow> received_at (staged ! i) \<noteq> received_at (staged ! j))
           \<longrightarrow> (\<exists>m \<in> set staged.
                  same_partition ?keys m ?r1
                  \<and> (\<forall>s \<in> set staged. same_partition ?keys s ?r1
                        \<longrightarrow> \<not> desc_before (received_at s) (received_at m))
                  \<and> filter (\<lambda>d. same_partition ?keys d ?r1)
                       (dedup_delete (primaryKey ex_wu ''tracks'')
                          (additionalJoinClause ex_wu ''tracks'') before staged
                        @ map (project ?cols) (ranked_first ?keys staged))
                     = [project ?cols m])"
    by (rule bspec)
  with nn dist obtain m where
    m: "m \<in> set staged"
    and top: "\<forall>s \<in> set staged. same_partition ?keys s ?r1
                \<longrightarrow> \<not> desc_before (received_at s) (received_at m)"
    and one: "filter (\<lambda>d. same_partition ?keys d ?r1)
                (dedup_delete (primaryKey ex_wu ''tracks'')
                   (additionalJoinClause ex_wu ''tracks'') before staged
                 @ map (project ?cols) (ranked_first ?keys staged))
               = [project ?cols m]"
    by blast
  have "same_partition ?keys ?r2 ?r1"
    by (simp add: keys same_partition_def cell_def)
  with top have "\<not> desc_before (received_at ?r2) (received_at m)"
    by (simp add: staged)
  moreover have "desc_before (received_at ?r2) (received_at ?r1)"
    by (simp add: desc_before_def received_at_def cell_def)
  ultimately have "m \<noteq> ?r1" by blast
  with m have "m = ?r2" by (simp add: staged)
  then have "project ?cols m = ?r2"
    by (simp add: cols project_def cell_def)
  with one a have "filter (\<lambda>d. same_partition ?keys d ?r1)
        (case map_of (db_after ?res) ''tracks'' of None \<Rightarrow> [] | Some rows \<Rightarrow> rows) = [?r2]"
    by simp
  with h1 h2 h3 h4 st show ?thesis by blast
qed

text \<open>
  Claim C1 as stated fails for the discards table: the destination row below has the
  \<open>row_id\<close> of the staging row, the load succeeds, and the row is still there, next to
  the inserted one with the same \<open>row_id\<close>.
\<close>

theorem discards_row_with_same_row_id_survives:
  "load_err (loadTable ex_wu ex_pg (ex_env ex_discards_files) ex_discards_db ''discards''
               ex_discards_schema False) = None
   \<and> primaryKey ex_wu ''discards'' = ''row_id''
   \<and> map_of ex_discards_db ''discards''
       = Some [[(''column_name'', Some 97), (''received_at'', Some 5), (''row_id'', Some 1),
                (''table_name'', Some 116)]]
   \<and> copy_files (ex_env ex_discards_files) ''discards''
        (SortColumnKeysFromColumnMap ex_wu ex_discards_schema) ex_discards_files []
       = Inr [[(''column_name'', Some 98), (''received_at'', Some 60), (''row_id'', Some 1),
               (''table_name'', Some 116)]]
   \<and> map_of (db_after (loadTable ex_wu ex_pg (ex_env ex_discards_files) ex_discards_db
                          ''discards'' ex_discards_schema False)) ''discards''
       = Some [[(''column_name'', Some 97), (''received_at'', Some 5), (''row_id'', Some 1),
                (''table_name'', Some 116)],
               [(''column_name'', Some 98), (''received_at'', Some 60), (''row_id'', Some 1),
                (''table_name'', Some 116)]]"
proof -
  have "primaryKey ex_wu ''discards'' = ''row_id''"
    by (simp add: primaryKey_def primaryKeyMap_def ex_wu_def)
  moreover have "map_of ex_discards_db ''discards''
       = Some [[(''column_name'', Some 97), (''received_at'', Some 5), (''row_id'', Some 1),
                (''table_name'', Some 116)]]"
    by (simp add: ex_discards_db_def)
  moreover have "copy_files (ex_env ex_discards_files) ''discards''
        (SortColumnKeysFromColumnMap ex_wu ex_discards_schema) ex_discards_files []
       = Inr [[(''column_name'', Some 98), (''received_at'', Some 60), (''row_id'', Some 1),
               (''table_name'', Some 116)]]"
    by (simp add: ex_defs load_defs)
  ultimately show ?thesis
    by (simp add: ex_discards_load)
qed

section \<open>Properties of loadUserTables\<close>

text \<open>
  Claim C10. The map that loadUserTables returns always has an entry for the identifies
  table: the error of setting the search path or of the identifies load, or nil. It has
  an entry for the users table exactly when the search path was set, the identifies load
  returned no error and the upload schema of the users table is not empty; it has no
  other entry.
\<close>

theorem loadUserTables_errorMap_keys:
  assumes "UsersTable wu \<noteq> IdentifiesTable wu"
  shows "errorMap (loadUserTables wu pg up env db) (IdentifiesTable wu)
           = Some (case u_setSearchPathErr env of
                     Some err \<Rightarrow> Some err
                   | None \<Rightarrow> load_err (loadTable wu pg (identifiesEnv env) db (IdentifiesTable wu)
                                        (GetTableSchemaInUpload up (IdentifiesTable wu)) True))
       \<and> (errorMap (loadUserTables wu pg up env db) (UsersTable wu) \<noteq> None \<longleftrightarrow>
            u_setSearchPathErr env = None
            \<and> load_err (loadTable wu pg (identifiesEnv env) db (IdentifiesTable wu)
                          (GetTableSchemaInUpload up (IdentifiesTable wu)) True) = None
            \<and> GetTableSchemaInUpload up (UsersTable wu) \<noteq> [])
       \<and> dom (errorMap (loadUserTables wu pg up env db))
            \<subseteq> {IdentifiesTable wu, UsersTable wu}"
  using assms
  by (auto simp: loadUserTables_def Let_def split: option.splits if_splits)

lemma ex_identifies_load:
  "load_err (loadTable ex_wu ex_pg (ex_env []) ex_users_db ''identifies''
               (GetTableSchemaInUpload ex_up ''identifies'') True) = None"
  by (simp add: ex_defs load_defs ex_up_def ex_users_db_def)

theorem loadUserTables_errorMap_keys_witness:
  "UsersTable ex_wu \<noteq> IdentifiesTable ex_wu
   \<and> errorMap (loadUserTables ex_wu ex_pg ex_up ex_users_env ex_users_db) ''identifies''
       = Some None
   \<and> errorMap (loadUserTables ex_wu ex_pg ex_up ex_users_env ex_users_db) ''users'' \<noteq> None
   \<and> errorMap (loadUserTables ex_wu ex_pg ex_up ex_users_env_fails ex_users_db) ''identifies''
       = Some (Some (DriverError ''bad connection''))
   \<and> errorMap (loadUserTables ex_wu ex_pg ex_up ex_users_env_fails ex_users_db) ''users''
       = None"
proof -
  have n: "UsersTable ex_wu \<noteq> IdentifiesTable ex_wu"
    by (simp add: ex_wu_def)
  have w: "IdentifiesTable ex_wu = ''identifies''" "UsersTable ex_wu = ''users''"
    by (simp_all add: ex_wu_def)
  have e: "u_setSearchPathErr ex_users_env = None" "identifiesEnv ex_users_env = ex_env []"
    "u_setSearchPathErr ex_users_env_fails = Some (DriverError ''bad connection'')"
    by (simp_all add: ex_users_env_def ex_users_env_fails_def)
  have s: "GetTableSchemaInUpload ex_up ''users'' \<noteq> []"
    by (simp add: ex_up_def)
  note T = loadUserTables_errorMap_keys [OF n, where pg = ex_pg and up = ex_up and db = ex_users_db]
  from T [where env = ex_users_env, THEN conjunct1]
  have a: "errorMap (loadUserTables ex_wu ex_pg ex_up ex_users_env ex_users_db) ''identifies''
             = Some None"
    by (simp add: w e ex_identifies_load)
  from T [where env = ex_users_env, THEN conjunct2, THEN conjunct1]
  have b: "errorMap (loadUserTables ex_wu ex_pg ex_up ex_users_env ex_users_db) ''users'' \<noteq> None"
    using s by (simp add: w e ex_identifies_load)
  from T [where env = ex_users_env_fails, THEN conjunct1]
  have c: "errorMap (loadUserTables ex_wu ex_pg ex_up ex_users_env_fails ex_users_db) ''identifies''
             = Some (Some (DriverError ''bad connection''))"
    by (simp add: w e)
  from T [where env = ex_users_env_fails, THEN conjunct2, THEN conjunct1]
  have d: "errorMap (loadUserTables ex_wu ex_pg ex_up ex_users_env_fails ex_users_db) ''users''
             = None"
    by (simp add: w e)
  from n a b c d show ?thesis by blast
qed

section \<open>The most recent non-null value of a user attribute\<close>













end
